theory Spec2Isabelle
  imports Complex_Main
begin

section \<open>Python values used by the statement analyzer\<close>

text \<open>
  A Python \<open>str\<close> is a sequence of Unicode code points, so it is modelled as a list of
  natural numbers. ASCII literals of the source are written \<open>py ''...''\<close>.
\<close>

type_synonym pystr = "nat list"

definition py :: "string \<Rightarrow> pystr" where
  "py s = map of_char s"

text \<open>
  The pattern \<open>\d\<close> of the \<open>re\<close> module, on a \<open>str\<close> pattern, matches every code point
  with the Unicode property "decimal digit", and \<open>float\<close> reads each of them as the digit
  it denotes. The decimal digits come in runs of ten consecutive code points
  (digit zero first); the table lists the first code point of every run (Unicode 14.0).
\<close>

definition decimal_starts :: "nat list" where
  "decimal_starts =
    [48, 1632, 1776, 1984, 2406, 2534, 2662, 2790, 2918, 3046, 3174, 3302, 3430, 3558,
     3664, 3792, 3872, 4160, 4240, 6112, 6160, 6470, 6608, 6784, 6800, 6992, 7088, 7232,
     7248, 42528, 43216, 43264, 43472, 43504, 43600, 44016, 65296, 66720, 68912, 69734,
     69872, 69942, 70096, 70384, 70736, 70864, 71248, 71360, 71472, 71904, 72016, 72784,
     73040, 73120, 92768, 92864, 93008, 120782, 120792, 120802, 120812, 120822, 123200,
     123632, 125264, 130032]"

definition decimal_value :: "nat \<Rightarrow> nat option" where
  "decimal_value c =
     map_option (\<lambda>s. c - s) (find (\<lambda>s. s \<le> c \<and> c < s + 10) decimal_starts)"

definition is_decimal :: "nat \<Rightarrow> bool" where
  "is_decimal c = (decimal_value c \<noteq> None)"

text \<open>
  A Python \<open>float\<close> is an IEEE 754 binary64 number. Finite values are kept as the
  rational they denote; the two zeros are not told apart (Python's \<open>==\<close> and \<open>>\<close> do not
  tell them apart either).
\<close>

datatype pyfloat = Finite rat | PosInf | NegInf | NaN

fun bit_length :: "nat \<Rightarrow> nat" where
  "bit_length n = (if n = 0 then 0 else Suc (bit_length (n div 2)))"

declare bit_length.simps [simp del]

text \<open>\<open>binade a\<close> is the integer \<open>e\<close> with \<open>2^e \<le> a < 2^(e+1)\<close>, for \<open>a > 0\<close>.\<close>

definition binade :: "rat \<Rightarrow> int" where
  "binade a =
     (let (n, d) = quotient_of a;
          k = int (bit_length (nat n)) - int (bit_length (nat d))
      in if 2 powi k \<le> a then k else k - 1)"

definition round_half_even :: "rat \<Rightarrow> int" where
  "round_half_even q =
     (let f = \<lfloor>q\<rfloor>; r = q - of_int f
      in if r < 1 / 2 then f
         else if 1 / 2 < r then f + 1
         else if even f then f else f + 1)"

text \<open>
  Rounding of an exact value to binary64, to nearest, ties to even: 53 significant bits,
  exponents from -1022 (gradual underflow below), overflow to infinity.
\<close>

definition binary64 :: "rat \<Rightarrow> pyfloat" where
  "binary64 q =
     (if q = 0 then Finite 0
      else
        let a = \<bar>q\<bar>;
            e = max (binade a) (- 1022);
            ulp = 2 powi (e - 52);
            r = of_int (round_half_even (a / ulp)) * ulp
        in if 2 powi 1024 \<le> r then (if q < 0 then NegInf else PosInf)
           else Finite (if q < 0 then - r else r))"

section \<open>The amount normalizer\<close>

text \<open>
  \<open>re.sub(r'[^\d.-]', '', s)\<close>: every character that is not a decimal digit, a full
  stop (46) or a hyphen-minus (45) is deleted.
\<close>

definition numeric_char :: "nat \<Rightarrow> bool" where
  "numeric_char c = (is_decimal c \<or> c = 46 \<or> c = 45)"

fun re_sub_non_numeric :: "pystr \<Rightarrow> pystr" where
  "re_sub_non_numeric [] = []"
| "re_sub_non_numeric (c # s) =
     (if numeric_char c then c # re_sub_non_numeric s else re_sub_non_numeric s)"

text \<open>
  \<open>float(s)\<close> on the text that \<open>re.sub\<close> leaves (digits, full stops, hyphens only):
  an optional sign, then digits with at most one full stop and at least one digit; the
  value is rounded to binary64. Anything else raises \<open>ValueError\<close>, which is \<open>None\<close> here.
  (Exponents, \<open>+\<close>, blanks, underscores, \<open>inf\<close> and \<open>nan\<close>, which \<open>float\<close> also reads,
  cannot occur in that text.)
\<close>

fun digits_val :: "nat \<Rightarrow> pystr \<Rightarrow> nat" where
  "digits_val acc [] = acc"
| "digits_val acc (c # s) = digits_val (10 * acc + the (decimal_value c)) s"

definition unsigned_decimal :: "pystr \<Rightarrow> rat option" where
  "unsigned_decimal s =
     (let ip = takeWhile (\<lambda>c. c \<noteq> 46) s;
          fp = drop 1 (dropWhile (\<lambda>c. c \<noteq> 46) s);
          ds = ip @ fp
      in if ds \<noteq> [] \<and> list_all is_decimal ds
         then Some (of_nat (digits_val 0 ds) / 10 ^ length fp)
         else None)"

definition decimal_literal :: "pystr \<Rightarrow> rat option" where
  "decimal_literal s =
     (case s of
        [] \<Rightarrow> None
      | c # t \<Rightarrow> if c = 45 then map_option uminus (unsigned_decimal t)
                 else unsigned_decimal s)"

definition py_float :: "pystr \<Rightarrow> pyfloat option" where
  "py_float s = map_option binary64 (decimal_literal s)"

text \<open>
  \<open>parse_amount(amount_str)\<close>. The argument goes through \<open>str\<close> first; \<open>str\<close> is the
  parameter \<open>str_of\<close> (the identity on a \<open>str\<close>). The bare \<open>except\<close> turns every failure of
  \<open>float\<close> into \<open>0.0\<close>.
\<close>

definition parse_amount :: "('a \<Rightarrow> pystr) \<Rightarrow> 'a \<Rightarrow> pyfloat" where
  "parse_amount str_of amount_str =
     (let numeric_str = re_sub_non_numeric (str_of amount_str)
      in case py_float numeric_str of
           Some v \<Rightarrow> v
         | None \<Rightarrow> Finite 0)"

definition str_id :: "pystr \<Rightarrow> pystr" where
  "str_id s = s"


section \<open>Values, exceptions and the external collaborators\<close>

text \<open>
  The values that \<open>json.loads\<close> returns: \<open>None\<close>, booleans, numbers, strings, lists and
  dicts (a dict keeps its keys in insertion order, each key once).
\<close>

datatype pyval =
    PNone
  | PBool bool
  | PInt int
  | PFloat pyfloat
  | PStr pystr
  | PList "pyval list"
  | PDict "(pystr \<times> pyval) list"

text \<open>
  An exception is kept with the text that \<open>str(e)\<close> gives. The handlers of
  \<open>extract_data_from_file\<close> tell \<open>json.JSONDecodeError\<close> from every other \<open>Exception\<close>.
\<close>

datatype exn = JSONDecodeError pystr | OtherException pystr

text \<open>
  An uploaded file: its name, its MIME type as the uploader reports it (possibly absent
  or empty) and what \<open>seek(0)\<close> followed by \<open>read()\<close> gives.
\<close>

record uploaded_file =
  fname :: pystr
  ftype :: "pystr option"
  fread :: "exn + nat list"

text \<open>
  What the code calls but does not define: \<open>str.lower\<close>, the oracle (building the model,
  \<open>generate_content\<close> on the prompt and the file part, reading \<open>response.text\<close>; any of
  them may raise) and \<open>json.loads\<close>.
\<close>

record world =
  lower :: "pystr \<Rightarrow> pystr"
  generate_content :: "pystr option \<Rightarrow> nat list \<Rightarrow> exn + pystr"
  json_loads :: "pystr \<Rightarrow> exn + pyval"

subsection \<open>String operations\<close>

definition startswith :: "pystr \<Rightarrow> pystr \<Rightarrow> bool" where
  "startswith s t = (take (length t) s = t)"

definition endswith :: "pystr \<Rightarrow> pystr \<Rightarrow> bool" where
  "endswith s t = (length t \<le> length s \<and> drop (length s - length t) s = t)"

text \<open>The code points for which \<open>str.isspace\<close> holds; \<open>str.strip()\<close> removes them at both ends.\<close>

definition is_space :: "nat \<Rightarrow> bool" where
  "is_space c = (c \<in> set [9, 10, 11, 12, 13, 28, 29, 30, 31, 32, 133, 160, 5760,
     8192, 8193, 8194, 8195, 8196, 8197, 8198, 8199, 8200, 8201, 8202, 8232, 8233,
     8239, 8287, 12288])"

definition strip :: "pystr \<Rightarrow> pystr" where
  "strip s = rev (dropWhile is_space (rev (dropWhile is_space s)))"

text \<open>\<open>s.split('.')[-1]\<close>: what follows the last full stop (all of \<open>s\<close> when there is none).\<close>

definition last_segment :: "pystr \<Rightarrow> pystr" where
  "last_segment s = rev (takeWhile (\<lambda>c. c \<noteq> 46) (rev s))"

subsection \<open>Dict operations\<close>

fun dict_get :: "(pystr \<times> pyval) list \<Rightarrow> pystr \<Rightarrow> pyval \<Rightarrow> pyval" where
  "dict_get [] k d = d"
| "dict_get ((k', v) # kvs) k d = (if k' = k then v else dict_get kvs k d)"

fun dict_set :: "pystr \<Rightarrow> pyval \<Rightarrow> (pystr \<times> pyval) list \<Rightarrow> (pystr \<times> pyval) list" where
  "dict_set k v [] = [(k, v)]"
| "dict_set k v ((k', v') # kvs) =
     (if k' = k then (k, v) # kvs else (k', v') # dict_set k v kvs)"

text \<open>Truth value of an object, as \<open>if error:\<close> tests it.\<close>

fun truthy :: "pyval \<Rightarrow> bool" where
  "truthy PNone = False"
| "truthy (PBool b) = b"
| "truthy (PInt i) = (i \<noteq> 0)"
| "truthy (PFloat x) = (x \<noteq> Finite 0)"
| "truthy (PStr s) = (s \<noteq> [])"
| "truthy (PList xs) = (xs \<noteq> [])"
| "truthy (PDict kvs) = (kvs \<noteq> [])"

text \<open>\<open>str(v)\<close>: a \<open>str\<close> is returned as it is; for other values the text is the parameter \<open>repr\<close>.\<close>

definition str_of :: "(pyval \<Rightarrow> pystr) \<Rightarrow> pyval \<Rightarrow> pystr" where
  "str_of repr v = (case v of PStr s \<Rightarrow> s | _ \<Rightarrow> repr v)"

section \<open>The AI-vision extraction adapter\<close>

text \<open>The MIME type sent to the oracle (lines 53 to 58 of app.py).\<close>

definition guess_file_type :: "world \<Rightarrow> uploaded_file \<Rightarrow> pystr option" where
  "guess_file_type w f =
     (if ftype f \<noteq> None \<and> ftype f \<noteq> Some [] then ftype f
      else if endswith (lower w (fname f)) (py ''.pdf'') then Some (py ''application/pdf'')
      else if endswith (lower w (fname f)) (py ''.png'')
            \<or> endswith (lower w (fname f)) (py ''.jpg'')
            \<or> endswith (lower w (fname f)) (py ''.jpeg'')
           then Some (py ''image/'' @ lower w (last_segment (fname f)))
      else ftype f)"

text \<open>Removal of the code fence around the response (lines 109 to 118).\<close>

definition strip_fences :: "pystr \<Rightarrow> pystr" where
  "strip_fences text =
     (let t0 = strip text;
          t1 = (if startswith t0 (py ''```json'') then drop 7 t0 else t0);
          t2 = (if startswith t1 (py ''```'') then drop 3 t1 else t1);
          t3 = (if endswith t2 (py ''```'') then take (length t2 - 3) t2 else t2)
      in strip t3)"

text \<open>
  \<open>data['filename'] = uploaded_file.name\<close>: an item assignment, which only a dict (of the
  values \<open>json.loads\<close> returns) supports; the others raise \<open>TypeError\<close>.
\<close>

fun set_filename :: "pyval \<Rightarrow> pystr \<Rightarrow> exn + pyval" where
  "set_filename (PDict kvs) n = Inr (PDict (dict_set (py ''filename'') (PStr n) kvs))"
| "set_filename (PList xs) n =
     Inl (OtherException (py ''list indices must be integers or slices, not str''))"
| "set_filename PNone n =
     Inl (OtherException (py [CHR 0x27] @ py ''NoneType'' @ py [CHR 0x27]
        @ py '' object does not support item assignment''))"
| "set_filename (PBool b) n =
     Inl (OtherException (py [CHR 0x27] @ py ''bool'' @ py [CHR 0x27]
        @ py '' object does not support item assignment''))"
| "set_filename (PInt i) n =
     Inl (OtherException (py [CHR 0x27] @ py ''int'' @ py [CHR 0x27]
        @ py '' object does not support item assignment''))"
| "set_filename (PFloat x) n =
     Inl (OtherException (py [CHR 0x27] @ py ''float'' @ py [CHR 0x27]
        @ py '' object does not support item assignment''))"
| "set_filename (PStr s) n =
     Inl (OtherException (py [CHR 0x27] @ py ''str'' @ py [CHR 0x27]
        @ py '' object does not support item assignment''))"

text \<open>The body of the \<open>try\<close> block: \<open>Inl\<close> is the exception that ends it.\<close>

definition extract_body :: "world \<Rightarrow> uploaded_file \<Rightarrow> exn + pyval" where
  "extract_body w f =
     (case fread f of
        Inl e \<Rightarrow> Inl e
      | Inr file_data \<Rightarrow>
          (case generate_content w (guess_file_type w f) file_data of
             Inl e \<Rightarrow> Inl e
           | Inr text \<Rightarrow>
               (case json_loads w (strip_fences text) of
                  Inl e \<Rightarrow> Inl e
                | Inr data \<Rightarrow> set_filename data (fname f))))"

text \<open>
  \<open>extract_data_from_file(uploaded_file, file_index, total_files)\<close> returns the pair
  \<open>(data, error)\<close>; the two handlers build the message from the file name and \<open>str(e)\<close>.
\<close>

definition extract_data_from_file ::
  "world \<Rightarrow> uploaded_file \<Rightarrow> nat \<Rightarrow> nat \<Rightarrow> pyval \<times> pyval" where
  "extract_data_from_file w f file_index total_files =
     (case extract_body w f of
        Inr data \<Rightarrow> (data, PNone)
      | Inl (JSONDecodeError m) \<Rightarrow>
          (PNone, PStr (py ''JSON parsing error in '' @ fname f @ py '': '' @ m))
      | Inl (OtherException m) \<Rightarrow>
          (PNone, PStr (py ''Error processing '' @ fname f @ py '': '' @ m)))"

section \<open>The batch: session state and the upload handler\<close>

record session_state =
  all_statements :: "pyval list"
  processing_complete :: bool
  last_upload_count :: nat

text \<open>
  The loop over the uploaded files (lines 290 to 299): \<open>idx\<close> counts from 0, the
  accumulated statements and the messages shown by \<open>st.error\<close> are threaded through.
\<close>

fun process_files ::
  "world \<Rightarrow> (pyval \<Rightarrow> pystr) \<Rightarrow> nat \<Rightarrow> nat \<Rightarrow> uploaded_file list
     \<Rightarrow> pyval list \<times> pystr list \<Rightarrow> pyval list \<times> pystr list" where
  "process_files w repr n idx [] acc = acc"
| "process_files w repr n idx (f # fs) (stmts, shown) =
     (let (data, error) = extract_data_from_file w f (idx + 1) n
      in if truthy error
         then process_files w repr n (idx + 1) fs
                (stmts, shown @ [[10060, 32] @ str_of repr error])
         else process_files w repr n (idx + 1) fs (stmts @ [data], shown))"

text \<open>
  One run of the script over the uploader's current value (lines 276 to 304); the
  result is the session state at \<open>st.rerun()\<close> (or at the end of the block) and the
  error messages shown.
\<close>

definition handle_upload ::
  "world \<Rightarrow> (pyval \<Rightarrow> pystr) \<Rightarrow> uploaded_file list \<Rightarrow> session_state
     \<Rightarrow> session_state \<times> pystr list" where
  "handle_upload w repr uploaded_files s =
     (if uploaded_files \<noteq> [] then
        let current_upload_count = length uploaded_files;
            s1 = (if current_upload_count \<noteq> last_upload_count s
                  then s\<lparr>last_upload_count := current_upload_count,
                         all_statements := [],
                         processing_complete := False\<rparr>
                  else s)
        in if \<not> processing_complete s1
           then let (stmts, shown) =
                      process_files w repr (length uploaded_files) 0 uploaded_files
                        (all_statements s1, [])
                in (s1\<lparr>all_statements := stmts, processing_complete := True\<rparr>, shown)
           else (s1, [])
      else (s, []))"

text \<open>A document counts as extracted when the error component of the pair is \<open>None\<close>.\<close>

definition succeeded :: "pyval \<times> pyval \<Rightarrow> bool" where
  "succeeded r = (snd r = PNone)"

subsection \<open>The record shape of the specification\<close>

text \<open>
  Written from the specification (sections 3 and 6), not from the code: the field names
  a StatementRecord must have, with the nested \<open>statement_period\<close> and the two arrays.
\<close>

definition required_fields :: "pystr list" where
  "required_fields =
     [py ''issuer'', py ''card_type'', py ''card_last_4'', py ''payment_due_date'',
      py ''credit_limit'', py ''available_credit_limit'', py ''total_amount_due'',
      py ''minimum_amount_due'']"

fun is_list :: "pyval \<Rightarrow> bool" where
  "is_list (PList xs) = True"
| "is_list v = False"

fun has_period :: "pyval \<Rightarrow> bool" where
  "has_period (PDict p) = (py ''from'' \<in> fst ` set p \<and> py ''to'' \<in> fst ` set p)"
| "has_period v = False"

fun statement_record_shape :: "pyval \<Rightarrow> bool" where
  "statement_record_shape (PDict kvs) =
     (list_all (\<lambda>k. k \<in> fst ` set kvs) required_fields
      \<and> has_period (dict_get kvs (py ''statement_period'') PNone)
      \<and> is_list (dict_get kvs (py ''transactions'') PNone)
      \<and> is_list (dict_get kvs (py ''insights'') PNone))"
| "statement_record_shape v = False"

subsection \<open>A sample run of the collaborators\<close>

text \<open>
  Concrete collaborators for the examples below: an oracle that answers by the bytes of
  the file (a bare object, a failure, a fenced object, text that is no JSON), and
  \<open>json.loads\<close> on the two texts it is given here, the empty object being read as the
  empty dict.
\<close>

definition sample_oracle :: "pystr option \<Rightarrow> nat list \<Rightarrow> exn + pystr" where
  "sample_oracle mime_type file_data =
     (if file_data = [7] then Inr (py ''{}'')
      else if file_data = [8] then Inl (OtherException (py ''429 quota exceeded''))
      else if file_data = [9] then Inr (py ''```json'' @ [10] @ py ''{}'' @ [10] @ py ''```'' @ [10])
      else Inr (py ''Sorry''))"

definition sample_loads :: "pystr \<Rightarrow> exn + pyval" where
  "sample_loads s =
     (if s = py ''{}'' then Inr (PDict [])
      else Inl (JSONDecodeError (py ''Expecting value: line 1 column 1 (char 0)'')))"

definition sample_world :: world where
  "sample_world =
     \<lparr>lower = (\<lambda>s. s), generate_content = sample_oracle, json_loads = sample_loads\<rparr>"

definition sample_file :: "pystr \<Rightarrow> nat list \<Rightarrow> uploaded_file" where
  "sample_file n file_data =
     \<lparr>fname = n, ftype = Some (py ''application/pdf''), fread = Inr file_data\<rparr>"

definition sample_repr :: "pyval \<Rightarrow> pystr" where
  "sample_repr v = py ''<object>''"

text \<open>A session that holds the result of an earlier batch of one document.\<close>

definition stale_session :: session_state where
  "stale_session =
     \<lparr>all_statements = [PDict [(py ''filename'', PStr (py ''old.pdf''))]],
      processing_complete = True, last_upload_count = 1\<rparr>"

section \<open>Float arithmetic and the utilization figures\<close>

text \<open>The comparisons \<open>x > 0\<close> and \<open>x >= 0\<close> on a float (false for \<open>nan\<close>).\<close>

fun float_gt0 :: "pyfloat \<Rightarrow> bool" where
  "float_gt0 (Finite r) = (0 < r)"
| "float_gt0 PosInf = True"
| "float_gt0 NegInf = False"
| "float_gt0 NaN = False"

fun float_ge0 :: "pyfloat \<Rightarrow> bool" where
  "float_ge0 (Finite r) = (0 \<le> r)"
| "float_ge0 PosInf = True"
| "float_ge0 NegInf = False"
| "float_ge0 NaN = False"

text \<open>
  \<open>a / b\<close> on floats: a zero divisor raises \<open>ZeroDivisionError\<close>, whatever the dividend;
  otherwise the IEEE quotient (no exception on overflow).
\<close>

fun truediv :: "pyfloat \<Rightarrow> pyfloat \<Rightarrow> exn + pyfloat" where
  "truediv a (Finite y) =
     (if y = 0 then Inl (OtherException (py ''float division by zero''))
      else case a of
             Finite x \<Rightarrow> Inr (binary64 (x / y))
           | PosInf \<Rightarrow> Inr (if 0 < y then PosInf else NegInf)
           | NegInf \<Rightarrow> Inr (if 0 < y then NegInf else PosInf)
           | NaN \<Rightarrow> Inr NaN)"
| "truediv (Finite x) PosInf = Inr (Finite 0)"
| "truediv (Finite x) NegInf = Inr (Finite 0)"
| "truediv a b = Inr NaN"

fun float_mul :: "pyfloat \<Rightarrow> pyfloat \<Rightarrow> pyfloat" where
  "float_mul (Finite x) (Finite y) = binary64 (x * y)"
| "float_mul NaN b = NaN"
| "float_mul a NaN = NaN"
| "float_mul (Finite x) b =
     (if x = 0 then NaN else if (0 < x) = (b = PosInf) then PosInf else NegInf)"
| "float_mul a (Finite y) =
     (if y = 0 then NaN else if (0 < y) = (a = PosInf) then PosInf else NegInf)"
| "float_mul a b = (if a = b then PosInf else NegInf)"

text \<open>
  What is shown for a utilization: \<open>Percent x\<close> stands for the text of the f-string
  \<open>{x:.1f}%\<close>, \<open>Text s\<close> for the string \<open>s\<close>.
\<close>

datatype shown = Percent pyfloat | Text pystr

text \<open>
  The \<open>Utilization\<close> entry of a row of the comparison table (line 364): the test reads
  the credit limit with the default \<open>'0'\<close>, the division with the default \<open>'1'\<close>.
\<close>

definition comparison_utilization ::
  "(pyval \<Rightarrow> pystr) \<Rightarrow> (pystr \<times> pyval) list \<Rightarrow> exn + shown" where
  "comparison_utilization repr stmt =
     (if float_gt0 (parse_amount (str_of repr)
                      (dict_get stmt (py ''credit_limit'') (PStr (py ''0''))))
      then case truediv
                  (parse_amount (str_of repr)
                     (dict_get stmt (py ''total_amount_due'') (PStr (py ''0''))))
                  (parse_amount (str_of repr)
                     (dict_get stmt (py ''credit_limit'') (PStr (py ''1'')))) of
             Inl e \<Rightarrow> Inl e
           | Inr q \<Rightarrow> Inr (Percent (float_mul q (Finite 100)))
      else Inr (Text (py ''N/A'')))"

text \<open>The \<open>Credit Utilization\<close> metric of a card's tab (lines 415 to 422).\<close>

definition card_utilization_metric ::
  "(pyval \<Rightarrow> pystr) \<Rightarrow> (pystr \<times> pyval) list \<Rightarrow> exn + shown" where
  "card_utilization_metric repr stmt =
     (let credit_limit_val = parse_amount (str_of repr)
            (dict_get stmt (py ''credit_limit'') (PStr (py ''0'')));
          total_due_val = parse_amount (str_of repr)
            (dict_get stmt (py ''total_amount_due'') (PStr (py ''0'')))
      in if float_gt0 credit_limit_val
         then case truediv total_due_val credit_limit_val of
                Inl e \<Rightarrow> Inl e
              | Inr q \<Rightarrow> Inr (Percent (float_mul q (Finite 100)))
         else Inr (Text (py ''N/A'')))"

text \<open>
  The \<open>Utilization %\<close> entry that \<open>create_card_comparison_chart\<close> computes for a
  statement (lines 167 to 174): a float, or the integer 0.
\<close>

definition chart_utilization ::
  "(pyval \<Rightarrow> pystr) \<Rightarrow> (pystr \<times> pyval) list \<Rightarrow> exn + pyval" where
  "chart_utilization repr stmt =
     (let total_due = parse_amount (str_of repr)
            (dict_get stmt (py ''total_amount_due'') (PStr (py ''0'')));
          credit_limit = parse_amount (str_of repr)
            (dict_get stmt (py ''credit_limit'') (PStr (py ''0'')))
      in if float_gt0 credit_limit
         then case truediv total_due credit_limit of
                Inl e \<Rightarrow> Inl e
              | Inr q \<Rightarrow> Inr (PFloat (float_mul q (Finite 100)))
         else Inr (PInt 0))"

text \<open>
  The amount that the category charts add up for a transaction (lines 138 and 213):
  \<open>parse_amount(txn.get('amount', '0'))\<close>.
\<close>

definition chart_amount :: "(pyval \<Rightarrow> pystr) \<Rightarrow> (pystr \<times> pyval) list \<Rightarrow> pyfloat" where
  "chart_amount repr txn =
     parse_amount (str_of repr) (dict_get txn (py ''amount'') (PStr (py ''0'')))"

section \<open>The transactions export over a store of dict objects\<close>

text \<open>
  The export loop calls \<open>txn.copy()\<close> and assigns to the copy, so here dicts are objects
  in a store and a value refers to a dict by its address: \<open>ORef a\<close> is the dict at index
  \<open>a\<close> of the store. (Lists are not assigned to anywhere in the display and export code
  and stay values.)
\<close>

datatype obj =
    ONone
  | OBool bool
  | OInt int
  | OFloat pyfloat
  | OStr pystr
  | OList "obj list"
  | ORef nat

type_synonym store = "(pystr \<times> obj) list list"

text \<open>The type names that appear in the messages of \<open>AttributeError\<close> and \<open>TypeError\<close>.\<close>

fun type_name :: "obj \<Rightarrow> pystr" where
  "type_name ONone = py ''NoneType''"
| "type_name (OBool b) = py ''bool''"
| "type_name (OInt i) = py ''int''"
| "type_name (OFloat x) = py ''float''"
| "type_name (OStr s) = py ''str''"
| "type_name (OList xs) = py ''list''"
| "type_name (ORef a) = py ''dict''"

definition no_attribute :: "obj \<Rightarrow> string \<Rightarrow> exn" where
  "no_attribute v attr =
     OtherException ([39] @ type_name v @ [39] @ py '' object has no attribute ''
        @ [39] @ py attr @ [39])"

fun obj_get :: "(pystr \<times> obj) list \<Rightarrow> pystr \<Rightarrow> obj \<Rightarrow> obj" where
  "obj_get [] k d = d"
| "obj_get ((k', v) # kvs) k d = (if k' = k then v else obj_get kvs k d)"

fun obj_set :: "pystr \<Rightarrow> obj \<Rightarrow> (pystr \<times> obj) list \<Rightarrow> (pystr \<times> obj) list" where
  "obj_set k v [] = [(k, v)]"
| "obj_set k v ((k', v') # kvs) =
     (if k' = k then (k, v) # kvs else (k', v') # obj_set k v kvs)"

text \<open>\<open>str(v)\<close> as the f-string of \<open>card_id\<close> applies it; \<open>repr\<close> gives the text of a non-string.\<close>

definition str_obj :: "(store \<Rightarrow> obj \<Rightarrow> pystr) \<Rightarrow> store \<Rightarrow> obj \<Rightarrow> pystr" where
  "str_obj repr h v = (case v of OStr s \<Rightarrow> s | _ \<Rightarrow> repr h v)"

text \<open>
  The items a \<open>for\<close> loop runs over: the elements of a list, the characters of a string,
  the keys of a dict; the other values are not iterable.
\<close>

fun iterate :: "store \<Rightarrow> obj \<Rightarrow> exn + obj list" where
  "iterate h (OList xs) = Inr xs"
| "iterate h (OStr s) = Inr (map (\<lambda>c. OStr [c]) s)"
| "iterate h (ORef a) = Inr (map (\<lambda>kv. OStr (fst kv)) (h ! a))"
| "iterate h v =
     Inl (OtherException ([39] @ type_name v @ [39] @ py '' object is not iterable''))"

text \<open>
  The inner loop of the export (lines 490 to 493): \<open>txn.copy()\<close> allocates a new dict
  with the same items, the assignment of \<open>card\<close> goes to that new dict, and the new dict
  is appended to \<open>all_transactions\<close>. A list has \<open>copy\<close> but takes no string index; the
  other values have no \<open>copy\<close>.
\<close>

fun export_txns ::
  "pystr \<Rightarrow> obj list \<Rightarrow> store \<times> obj list \<Rightarrow> store \<times> (exn + obj list)" where
  "export_txns card_id [] (h, all_transactions) = (h, Inr all_transactions)"
| "export_txns card_id (txn # txns) (h, all_transactions) =
     (case txn of
        ORef a \<Rightarrow>
          (let txn_copy = length h;
               h1 = h @ [h ! a];
               h2 = h1[txn_copy := obj_set (py ''card'') (OStr card_id) (h1 ! txn_copy)]
           in export_txns card_id txns (h2, all_transactions @ [ORef txn_copy]))
      | OList xs \<Rightarrow>
          (h, Inl (OtherException (py ''list indices must be integers or slices, not str'')))
      | _ \<Rightarrow> (h, Inl (no_attribute txn ''copy'')))"

text \<open>The outer loop (lines 488 to 493); the result is the store and the rows, or the exception.\<close>

fun export_statements ::
  "(store \<Rightarrow> obj \<Rightarrow> pystr) \<Rightarrow> obj list \<Rightarrow> store \<times> obj list
     \<Rightarrow> store \<times> (exn + obj list)" where
  "export_statements repr [] (h, all_transactions) = (h, Inr all_transactions)"
| "export_statements repr (stmt # stmts) (h, all_transactions) =
     (case stmt of
        ORef a \<Rightarrow>
          (let card_id = str_obj repr h (obj_get (h ! a) (py ''issuer'') (OStr (py ''Unknown'')))
                 @ py '' *''
                 @ str_obj repr h (obj_get (h ! a) (py ''card_last_4'') (OStr (py ''****'')))
           in case iterate h (obj_get (h ! a) (py ''transactions'') (OList [])) of
                Inl e \<Rightarrow> (h, Inl e)
              | Inr txns \<Rightarrow>
                  (case export_txns card_id txns (h, all_transactions) of
                     (h', Inl e) \<Rightarrow> (h', Inl e)
                   | (h', Inr rows) \<Rightarrow> export_statements repr stmts (h', rows)))
      | _ \<Rightarrow> (h, Inl (no_attribute stmt ''get'')))"


text \<open>The items of the row exported for a transaction: its own items and the \<open>card\<close> column.\<close>

definition card_row :: "store \<Rightarrow> pystr \<Rightarrow> obj \<Rightarrow> (pystr \<times> obj) list" where
  "card_row h card_id txn =
     (case txn of ORef a \<Rightarrow> obj_set (py ''card'') (OStr card_id) (h ! a) | _ \<Rightarrow> [])"

text \<open>A sample store: one statement (address 0) with one transaction (address 1).\<close>

definition sample_store :: store where
  "sample_store =
     [[(py ''issuer'', OStr (py ''HDFC'')), (py ''card_last_4'', OStr (py ''1234'')),
       (py ''transactions'', OList [ORef 1])],
      [(py ''amount'', OStr (py ''100'')), (py ''type'', OStr (py ''Debit''))]]"

definition sample_repr_obj :: "store \<Rightarrow> obj \<Rightarrow> pystr" where
  "sample_repr_obj h v = py ''<object>''"

section \<open>The text of a float\<close>

text \<open>
  \<open>str(x)\<close> of a float is its \<open>repr\<close>: the shortest string of decimal digits that
  \<open>float\<close> reads back as \<open>x\<close> (the nearest to \<open>x\<close> when several of that length do),
  written in positional notation when the decimal point falls within the range that
  \<open>repr\<close> allows and with an exponent otherwise.
\<close>

fun dec_length :: "nat \<Rightarrow> nat" where
  "dec_length n = (if n < 10 then 1 else Suc (dec_length (n div 10)))"

declare dec_length.simps [simp del]

fun dec_digits :: "nat \<Rightarrow> nat list" where
  "dec_digits n = (if n < 10 then [n] else dec_digits (n div 10) @ [n mod 10])"

declare dec_digits.simps [simp del]

text \<open>\<open>decade a\<close> is the integer \<open>k\<close> with \<open>10^(k-1) \<le> a < 10^k\<close>, for \<open>a > 0\<close>.\<close>

definition decade :: "rat \<Rightarrow> int" where
  "decade a =
     (let (n, d) = quotient_of a;
          k = int (dec_length (nat n)) - int (dec_length (nat d))
      in if 10 powi k \<le> a then k + 1 else k)"

text \<open>
  The two decimals with \<open>n\<close> significant digits next to \<open>a\<close> (\<open>k\<close> is the decade of \<open>a\<close>),
  as mantissa and power of ten; \<open>candidate\<close> returns the one that \<open>float\<close> reads back as
  \<open>a\<close>, the nearer one when both do (the even one on a tie).
\<close>

definition reads_back :: "rat \<Rightarrow> nat \<Rightarrow> int \<Rightarrow> bool" where
  "reads_back a m ex = (binary64 (of_nat m * 10 powi ex) = Finite a)"

definition candidate :: "rat \<Rightarrow> int \<Rightarrow> nat \<Rightarrow> (nat \<times> int) option" where
  "candidate a k n =
     (let ex = k - int n;
          s = a / 10 powi ex;
          lo = nat \<lfloor>s\<rfloor>;
          hi = lo + 1;
          lo_nearer = (s - of_nat lo < of_nat hi - s
                       \<or> (s - of_nat lo = of_nat hi - s \<and> even lo))
      in if reads_back a lo ex \<and> (lo_nearer \<or> \<not> reads_back a hi ex) then Some (lo, ex)
         else if reads_back a hi ex then Some (hi, ex)
         else None)"

fun first_candidate :: "rat \<Rightarrow> int \<Rightarrow> nat list \<Rightarrow> (nat \<times> int) option" where
  "first_candidate a k [] = None"
| "first_candidate a k (n # ns) =
     (case candidate a k n of
        Some c \<Rightarrow> Some c
      | None \<Rightarrow> first_candidate a k ns)"

text \<open>
  Seventeen significant digits always tell a binary64 number from its neighbours, so
  the search ends there at the latest.
\<close>

definition shortest :: "rat \<Rightarrow> nat \<times> int" where
  "shortest a =
     (let k = decade a
      in case first_candidate a k [1..<17] of
           Some c \<Rightarrow> c
         | None \<Rightarrow> (nat (round_half_even (a / 10 powi (k - 17))), k - 17))"

fun strip_zeros :: "nat list \<Rightarrow> nat list" where
  "strip_zeros ds = rev (dropWhile (\<lambda>d. d = 0) (rev ds))"

definition digit_chars :: "nat list \<Rightarrow> pystr" where
  "digit_chars ds = map (\<lambda>d. 48 + d) ds"

text \<open>The exponent part: a sign and at least two digits.\<close>

definition exp_text :: "int \<Rightarrow> pystr" where
  "exp_text e =
     (if e < 0 then [45] else [43])
     @ (if \<bar>e\<bar> < 10 then [48] else [])
     @ digit_chars (dec_digits (nat \<bar>e\<bar>))"

text \<open>
  The text of a positive finite float: \<open>ds\<close> are the digits without trailing zeros and
  \<open>decpt\<close> is the position of the decimal point relative to them (the value is
  \<open>0.ds * 10^decpt\<close>); positional notation is used when \<open>-4 < decpt \<le> 16\<close>.
\<close>

definition repr_positive :: "rat \<Rightarrow> pystr" where
  "repr_positive a =
     (let (m, ex) = shortest a;
          ds = strip_zeros (dec_digits m);
          n = length ds;
          decpt = int (dec_length m) + ex
      in if - 4 < decpt \<and> decpt \<le> 16 then
           (if decpt \<le> 0
              then py ''0.'' @ replicate (nat (- decpt)) 48 @ digit_chars ds
            else if int n \<le> decpt
              then digit_chars ds @ replicate (nat decpt - n) 48 @ py ''.0''
            else digit_chars (take (nat decpt) ds) @ [46] @ digit_chars (drop (nat decpt) ds))
         else digit_chars [hd ds]
              @ (if 1 < n then [46] @ digit_chars (tl ds) else [])
              @ [101] @ exp_text (decpt - 1))"

definition float_str :: "pyfloat \<Rightarrow> pystr" where
  "float_str x =
     (case x of
        NaN \<Rightarrow> py ''nan''
      | PosInf \<Rightarrow> py ''inf''
      | NegInf \<Rightarrow> py ''-inf''
      | Finite r \<Rightarrow>
          if r = 0 then py ''0.0''
          else if r < 0 then [45] @ repr_positive (- r)
          else repr_positive r)"

section \<open>Properties of the extraction adapter\<close>

lemma dict_get_set: "dict_get (dict_set k v kvs) k d = v"
  by (induction kvs) auto

lemma dict_set_key: "k \<in> fst ` set (dict_set k v kvs)"
  by (induction kvs) force+

lemma set_filename_Inr:
  "set_filename data n = Inr d \<Longrightarrow>
     \<exists>kvs. data = PDict kvs \<and> d = PDict (dict_set (py ''filename'') (PStr n) kvs)"
  by (cases data) auto

lemma extract_body_Inr:
  "extract_body w f = Inr d \<Longrightarrow>
     \<exists>kvs. d = PDict (dict_set (py ''filename'') (PStr (fname f)) kvs)"
  by (auto simp: extract_body_def split: sum.splits dest: set_filename_Inr)

lemma extract_Inr:
  "extract_body w f = Inr d \<Longrightarrow> extract_data_from_file w f i n = (d, PNone)"
  by (simp add: extract_data_from_file_def)

lemma extract_Inl:
  "\<exists>pre post. extract_data_from_file w f i n = (PNone, PStr (pre @ fname f @ post)) \<and> pre \<noteq> []"
  if "extract_body w f = Inl e"
proof (cases e)
  case (JSONDecodeError m)
  with that have "extract_data_from_file w f i n =
      (PNone, PStr (py ''JSON parsing error in '' @ fname f @ (py '': '' @ m)))"
    by (simp add: extract_data_from_file_def)
  moreover have "py ''JSON parsing error in '' \<noteq> []" by (simp add: py_def)
  ultimately show ?thesis by blast
next
  case (OtherException m)
  with that have "extract_data_from_file w f i n =
      (PNone, PStr (py ''Error processing '' @ fname f @ (py '': '' @ m)))"
    by (simp add: extract_data_from_file_def)
  moreover have "py ''Error processing '' \<noteq> []" by (simp add: py_def)
  ultimately show ?thesis by blast
qed

lemma extract_index_irrelevant:
  "extract_data_from_file w f i n = extract_data_from_file w f i' n'"
  by (simp add: extract_data_from_file_def)

text \<open>
  Claim C10. \<open>extract_data_from_file\<close> returns either a record and \<open>None\<close>, or \<open>None\<close> and a
  non-empty error message, never both and never neither; a returned record is a dict
  whose key \<open>filename\<close> holds the name of the uploaded file.
\<close>

theorem extract_result_shape:
  "(\<exists>kvs. extract_data_from_file w f i n = (PDict kvs, PNone)
        \<and> py ''filename'' \<in> fst ` set kvs
        \<and> dict_get kvs (py ''filename'') PNone = PStr (fname f))
   \<or> (\<exists>m. extract_data_from_file w f i n = (PNone, PStr m) \<and> m \<noteq> [])"
proof (cases "extract_body w f")
  case (Inl e)
  from extract_Inl [OF this, of i n] show ?thesis by auto
next
  case (Inr d)
  from extract_body_Inr [OF this] obtain kvs
    where "d = PDict (dict_set (py ''filename'') (PStr (fname f)) kvs)" by blast
  with extract_Inr [OF Inr, of i n] show ?thesis
    by (auto simp: dict_get_set dict_set_key)
qed


lemma process_files_eq:
  "process_files w repr n idx fs (stmts, shown) =
     (stmts @ map fst (filter succeeded (map (\<lambda>f. extract_data_from_file w f 0 0) fs)),
      shown @ map (\<lambda>r. [10060, 32] @ str_of repr (snd r))
                (filter (\<lambda>r. \<not> succeeded r) (map (\<lambda>f. extract_data_from_file w f 0 0) fs)))"
proof (induction fs arbitrary: idx stmts shown)
  case Nil
  then show ?case by simp
next
  case (Cons f fs)
  have eq: "extract_data_from_file w f j n = extract_data_from_file w f 0 0" for j
    by (rule extract_index_irrelevant)
  have "(\<exists>d. extract_data_from_file w f 0 0 = (d, PNone))
      \<or> (\<exists>m. extract_data_from_file w f 0 0 = (PNone, PStr m) \<and> m \<noteq> [])"
    by (cases "extract_body w f")
       (auto simp: extract_Inr dest: extract_Inl [where i = 0 and n = 0])
  then show ?case
    by (auto simp: eq Cons.IH succeeded_def)
qed

lemma strip_core:
  assumes "list_all is_space a" "list_all is_space b" "X \<noteq> []"
    "\<not> is_space (hd X)" "\<not> is_space (last X)"
  shows "strip (a @ X @ b) = X"
proof -
  have "dropWhile is_space (a @ X @ b) = dropWhile is_space (X @ b)"
    using assms(1) by (simp add: dropWhile_append2 list_all_iff)
  also have "\<dots> = X @ b"
    using assms(3,4) by (cases X) auto
  finally have 1: "dropWhile is_space (a @ X @ b) = X @ b" .
  have "dropWhile is_space (rev b @ rev X) = dropWhile is_space (rev X)"
    using assms(2) by (intro dropWhile_append2) (simp add: list_all_iff)
  then have "dropWhile is_space (rev (X @ b)) = dropWhile is_space (rev X)"
    by simp
  also have "\<dots> = rev X"
    using assms(3,5) by (cases "rev X") (auto simp: last_rev hd_rev)
  finally show ?thesis by (simp add: strip_def 1)
qed

lemma strip_fences_fenced:
  assumes ws: "list_all is_space ws1" "list_all is_space ws2"
              "list_all is_space ws3" "list_all is_space ws4"
    and J: "J \<noteq> []" "hd J = 123" "last J = 125"
    and tag: "tag = py ''json'' \<or> tag = []"
  shows "strip_fences (ws1 @ py ''```'' @ tag @ ws2 @ J @ ws3 @ py ''```'' @ ws4) = J"
proof -
  define F :: pystr where "F = [96, 96, 96]"
  have F: "py ''```'' = F" "py ''```json'' = F @ [106, 115, 111, 110]"
    "py ''json'' = [106, 115, 111, 110]"
    by (simp_all add: py_def F_def)
  define R where "R = ws2 @ J @ ws3"
  have nsp: "\<not> is_space 123" "\<not> is_space 125" "\<not> is_space 96"
    by (simp_all add: is_space_def)
  have R_ne: "R \<noteq> []" using J by (simp add: R_def)
  have hdR: "hd R \<noteq> 96 \<and> hd R \<noteq> 106"
  proof (cases ws2)
    case Nil
    then show ?thesis using J by (simp add: R_def)
  next
    case (Cons c cs)
    then have "is_space c" using ws(2) by simp
    then have "c \<noteq> 96 \<and> c \<noteq> 106" by (auto simp: is_space_def)
    then show ?thesis using Cons by (simp add: R_def)
  qed
  obtain r rs where R: "R = r # rs" using R_ne by (cases R) auto
  have r: "r \<noteq> 96" "r \<noteq> 106" using hdR R by auto
  let ?X = "F @ tag @ R @ F"
  have t0: "strip (ws1 @ py ''```'' @ tag @ ws2 @ J @ ws3 @ py ''```'' @ ws4) = ?X"
    using strip_core [of ws1 ws4 ?X] ws nsp
    by (simp add: F R_def F_def)
  have stripR: "strip R = J"
    using strip_core [of ws2 ws3 J] ws J nsp by (simp add: R_def)
  have endR: "endswith (R @ F) F" by (simp add: endswith_def F_def)
  have takeR: "take (length (R @ F) - 3) (R @ F) = R" by (simp add: F_def)
  have nostart: "\<not> startswith (R @ F) F" using r by (simp add: startswith_def F_def R)
  from tag show ?thesis
  proof
    assume tag: "tag = py ''json''"
    have "startswith ?X (py ''```json'')" by (simp add: startswith_def F tag F_def)
    moreover have "drop 7 ?X = R @ F" by (simp add: tag F F_def)
    ultimately show ?thesis
      unfolding strip_fences_def t0 Let_def
      using nostart endR takeR stripR by (simp add: F)
  next
    assume tag: "tag = []"
    have "\<not> startswith ?X (py ''```json'')" using r by (simp add: startswith_def F tag F_def R)
    moreover have "startswith ?X F" by (simp add: startswith_def tag F_def)
    moreover have "drop 3 ?X = R @ F" by (simp add: tag F_def)
    ultimately show ?thesis
      unfolding strip_fences_def t0 Let_def
      using endR takeR stripR by (simp add: F)
  qed
qed



lemma sample_extract_1:
  "extract_data_from_file sample_world (sample_file nm [7]) i n
     = (PDict [(py ''filename'', PStr nm)], PNone)"
  by (simp add: extract_data_from_file_def extract_body_def sample_world_def sample_file_def
      guess_file_type_def sample_oracle_def sample_loads_def strip_fences_def strip_def
      py_def is_space_def startswith_def endswith_def)

lemma sample_extract_2:
  "extract_data_from_file sample_world (sample_file nm [8]) i n
     = (PNone, PStr (py ''Error processing '' @ nm @ py '': 429 quota exceeded''))"
  by (simp add: extract_data_from_file_def extract_body_def sample_world_def sample_file_def
      guess_file_type_def sample_oracle_def py_def)

lemma sample_extract_3:
  "extract_data_from_file sample_world (sample_file nm [9]) i n
     = (PDict [(py ''filename'', PStr nm)], PNone)"
  by (simp add: extract_data_from_file_def extract_body_def sample_world_def sample_file_def
      guess_file_type_def sample_oracle_def sample_loads_def strip_fences_def strip_def
      py_def is_space_def startswith_def endswith_def)

lemma sample_extract_4:
  "extract_data_from_file sample_world (sample_file nm [5]) i n
     = (PNone, PStr (py ''JSON parsing error in '' @ nm
          @ py '': Expecting value: line 1 column 1 (char 0)''))"
  by (simp add: extract_data_from_file_def extract_body_def sample_world_def sample_file_def
      guess_file_type_def sample_oracle_def sample_loads_def strip_fences_def strip_def
      py_def is_space_def startswith_def endswith_def)

text \<open>
  Claim C2. Whatever ends the \<open>try\<close> block of \<open>extract_data_from_file\<close> (a failed oracle
  call, a response that \<open>json.loads\<close> rejects, any other exception), the function returns
  \<open>None\<close> and a message that contains the file name. The batch loop appends the record
  of every document that was extracted, in order, and shows one message for every
  document that failed; a failure never stops the loop.
\<close>

theorem extraction_failure_contained:
  "(\<forall>e. extract_body w f = Inl e \<longrightarrow>
       (\<exists>pre post. extract_data_from_file w f i n = (PNone, PStr (pre @ fname f @ post))))
   \<and> process_files w repr n idx fs (stmts, shown) =
       (stmts @ map fst (filter succeeded (map (\<lambda>f. extract_data_from_file w f 0 0) fs)),
        shown @ map (\<lambda>r. [10060, 32] @ str_of repr (snd r))
                  (filter (\<lambda>r. \<not> succeeded r) (map (\<lambda>f. extract_data_from_file w f 0 0) fs)))"
  using extract_Inl [of w f _ i n] process_files_eq [of w repr n idx fs stmts shown]
  by blast

theorem extraction_failure_contained_witness:
  "extract_body sample_world (sample_file (py ''b.pdf'') [8])
      = Inl (OtherException (py ''429 quota exceeded''))
   \<and> (\<exists>pre post. extract_data_from_file sample_world (sample_file (py ''b.pdf'') [8]) 2 3
         = (PNone, PStr (pre @ py ''b.pdf'' @ post)))
   \<and> process_files sample_world sample_repr 3 0
        [sample_file (py ''a.pdf'') [7], sample_file (py ''b.pdf'') [8],
         sample_file (py ''c.pdf'') [9]] ([], [])
      = ([PDict [(py ''filename'', PStr (py ''a.pdf''))],
          PDict [(py ''filename'', PStr (py ''c.pdf''))]],
         [[10060, 32] @ py ''Error processing b.pdf: 429 quota exceeded''])"
proof -
  have b: "extract_body sample_world (sample_file (py ''b.pdf'') [8])
      = Inl (OtherException (py ''429 quota exceeded''))"
    by (simp add: extract_body_def sample_world_def sample_file_def sample_oracle_def)
  note t = extraction_failure_contained [of sample_world "sample_file (py ''b.pdf'') [8]" 2 3
      sample_repr 0 "[sample_file (py ''a.pdf'') [7], sample_file (py ''b.pdf'') [8],
         sample_file (py ''c.pdf'') [9]]" "[]" "[]"]
  from t [THEN conjunct1] b have 1: "\<exists>pre post. extract_data_from_file sample_world (sample_file (py ''b.pdf'') [8]) 2 3
         = (PNone, PStr (pre @ py ''b.pdf'' @ post))"
    by (simp add: sample_file_def)
  from t [THEN conjunct2] have 2: "process_files sample_world sample_repr 3 0
        [sample_file (py ''a.pdf'') [7], sample_file (py ''b.pdf'') [8],
         sample_file (py ''c.pdf'') [9]] ([], [])
      = ([PDict [(py ''filename'', PStr (py ''a.pdf''))],
          PDict [(py ''filename'', PStr (py ''c.pdf''))]],
         [[10060, 32] @ py ''Error processing b.pdf: 429 quota exceeded''])"
    by (simp add: sample_extract_1 sample_extract_2 sample_extract_3 succeeded_def str_of_def
        py_def del: process_files.simps)
  from b 1 2 show ?thesis by blast
qed

text \<open>
  Claim C3. When the oracle's text is an object (text from an opening to a closing brace
  that \<open>json.loads\<close> reads as a dict) inside a triple-backtick fence, with or without the
  tag \<open>json\<close>, with blanks around the fence and around the object, the fence is
  stripped and the dict is returned as the record.
\<close>

theorem fenced_response_parsed:
  assumes "list_all is_space ws1" "list_all is_space ws2"
          "list_all is_space ws3" "list_all is_space ws4"
    and "J \<noteq> []" "hd J = 123" "last J = 125"
    and "tag = py ''json'' \<or> tag = []"
    and "fread f = Inr file_data"
    and "generate_content w (guess_file_type w f) file_data
           = Inr (ws1 @ py ''```'' @ tag @ ws2 @ J @ ws3 @ py ''```'' @ ws4)"
    and "json_loads w J = Inr (PDict kvs)"
  shows "extract_data_from_file w f i n
           = (PDict (dict_set (py ''filename'') (PStr (fname f)) kvs), PNone)"
  using assms(9-11) strip_fences_fenced [OF assms(1-8)]
  by (simp add: extract_data_from_file_def extract_body_def)

theorem fenced_response_parsed_witness:
  "list_all is_space [] \<and> list_all is_space [10] \<and> py ''{}'' \<noteq> [] \<and> hd (py ''{}'') = 123
   \<and> last (py ''{}'') = 125
   \<and> fread (sample_file (py ''c.pdf'') [9]) = Inr [9]
   \<and> generate_content sample_world
        (guess_file_type sample_world (sample_file (py ''c.pdf'') [9])) [9]
        = Inr ([] @ py ''```'' @ py ''json'' @ [10] @ py ''{}'' @ [10] @ py ''```'' @ [10])
   \<and> json_loads sample_world (py ''{}'') = Inr (PDict [])
   \<and> extract_data_from_file sample_world (sample_file (py ''c.pdf'') [9]) 1 1
        = (PDict [(py ''filename'', PStr (py ''c.pdf''))], PNone)"
proof -
  have h: "list_all is_space []" "list_all is_space [10]" "list_all is_space [10]"
      "list_all is_space [10]" "py ''{}'' \<noteq> []" "hd (py ''{}'') = 123"
      "last (py ''{}'') = 125" "py ''json'' = py ''json'' \<or> py ''json'' = []"
    by (simp_all add: is_space_def py_def)
  have r: "fread (sample_file (py ''c.pdf'') [9]) = Inr [9]"
    by (simp add: sample_file_def)
  have g: "generate_content sample_world
        (guess_file_type sample_world (sample_file (py ''c.pdf'') [9])) [9]
        = Inr ([] @ py ''```'' @ py ''json'' @ [10] @ py ''{}'' @ [10] @ py ''```'' @ [10])"
    by (simp add: sample_world_def sample_oracle_def py_def)
  have l: "json_loads sample_world (py ''{}'') = Inr (PDict [])"
    by (simp add: sample_world_def sample_loads_def)
  from fenced_response_parsed [OF h r g l, of 1 1]
  have "extract_data_from_file sample_world (sample_file (py ''c.pdf'') [9]) 1 1
        = (PDict [(py ''filename'', PStr (py ''c.pdf''))], PNone)"
    by (simp add: sample_file_def)
  with h r g l show ?thesis by blast
qed



text \<open>
  Claim C4, as stated, fails: the oracle answers the empty object, \<open>json.loads\<close> reads it
  as the empty dict, which has none of the fields of a StatementRecord, and
  \<open>extract_data_from_file\<close> returns it as the record.
\<close>

theorem shape_validation_counterexample:
  "json_loads sample_world (strip_fences (py ''{}'')) = Inr (PDict [])
   \<and> \<not> statement_record_shape (PDict [])
   \<and> extract_data_from_file sample_world (sample_file (py ''a.pdf'') [7]) 1 1
       = (PDict [(py ''filename'', PStr (py ''a.pdf''))], PNone)"
proof (intro conjI)
  show "json_loads sample_world (strip_fences (py ''{}'')) = Inr (PDict [])"
    by (simp add: sample_world_def sample_loads_def strip_fences_def strip_def
      py_def is_space_def startswith_def endswith_def)
  show "\<not> statement_record_shape (PDict [])"
    by (simp add: required_fields_def)
  show "extract_data_from_file sample_world (sample_file (py ''a.pdf'') [7]) 1 1
       = (PDict [(py ''filename'', PStr (py ''a.pdf''))], PNone)"
    by (rule sample_extract_1)
qed

text \<open>
  Claim C4, amended. \<open>extract_data_from_file\<close> checks no field: once the file was read and
  the oracle answered, every response that \<open>json.loads\<close> reads as a dict is returned as the
  record with \<open>filename\<close> added, whatever its keys; in every other case (the text is
  rejected, or it is read as a value that is no dict) the result is \<open>None\<close> with a message
  that names the file.
\<close>

theorem parsed_object_returned_unvalidated:
  assumes "fread f = Inr file_data"
    and "generate_content w (guess_file_type w f) file_data = Inr text"
  shows "(\<forall>kvs. json_loads w (strip_fences text) = Inr (PDict kvs) \<longrightarrow>
            extract_data_from_file w f i n
              = (PDict (dict_set (py ''filename'') (PStr (fname f)) kvs), PNone))
       \<and> ((\<forall>kvs. json_loads w (strip_fences text) \<noteq> Inr (PDict kvs)) \<longrightarrow>
            (\<exists>pre post. extract_data_from_file w f i n
              = (PNone, PStr (pre @ fname f @ post))))"
proof (intro conjI allI impI)
  fix kvs assume "json_loads w (strip_fences text) = Inr (PDict kvs)"
  with assms show "extract_data_from_file w f i n
              = (PDict (dict_set (py ''filename'') (PStr (fname f)) kvs), PNone)"
    by (simp add: extract_data_from_file_def extract_body_def)
next
  assume nd: "\<forall>kvs. json_loads w (strip_fences text) \<noteq> Inr (PDict kvs)"
  have "\<exists>e. extract_body w f = Inl e"
  proof (cases "json_loads w (strip_fences text)")
    case (Inl e)
    with assms show ?thesis by (simp add: extract_body_def)
  next
    case (Inr v)
    with nd have "\<forall>kvs. v \<noteq> PDict kvs" by simp
    then have "\<exists>e. set_filename v (fname f) = Inl e" by (cases v) auto
    with assms Inr show ?thesis by (simp add: extract_body_def)
  qed
  then show "\<exists>pre post. extract_data_from_file w f i n = (PNone, PStr (pre @ fname f @ post))"
    using extract_Inl [of w f _ i n] by blast
qed

theorem parsed_object_returned_unvalidated_witness:
  "fread (sample_file (py ''a.pdf'') [7]) = Inr [7]
   \<and> generate_content sample_world
        (guess_file_type sample_world (sample_file (py ''a.pdf'') [7])) [7] = Inr (py ''{}'')
   \<and> json_loads sample_world (strip_fences (py ''{}'')) = Inr (PDict [])
   \<and> extract_data_from_file sample_world (sample_file (py ''a.pdf'') [7]) 1 1
       = (PDict [(py ''filename'', PStr (py ''a.pdf''))], PNone)
   \<and> fread (sample_file (py ''d.pdf'') [5]) = Inr [5]
   \<and> generate_content sample_world
        (guess_file_type sample_world (sample_file (py ''d.pdf'') [5])) [5] = Inr (py ''Sorry'')
   \<and> (\<forall>kvs. json_loads sample_world (strip_fences (py ''Sorry'')) \<noteq> Inr (PDict kvs))
   \<and> (\<exists>pre post. extract_data_from_file sample_world (sample_file (py ''d.pdf'') [5]) 1 1
          = (PNone, PStr (pre @ py ''d.pdf'' @ post)))"
proof -
  have a: "fread (sample_file (py ''a.pdf'') [7]) = Inr [7]"
      "generate_content sample_world
        (guess_file_type sample_world (sample_file (py ''a.pdf'') [7])) [7] = Inr (py ''{}'')"
    by (simp_all add: sample_file_def sample_world_def sample_oracle_def)
  have al: "json_loads sample_world (strip_fences (py ''{}'')) = Inr (PDict [])"
    by (simp add: sample_world_def sample_loads_def strip_fences_def strip_def
      py_def is_space_def startswith_def endswith_def)
  have d: "fread (sample_file (py ''d.pdf'') [5]) = Inr [5]"
      "generate_content sample_world
        (guess_file_type sample_world (sample_file (py ''d.pdf'') [5])) [5] = Inr (py ''Sorry'')"
    by (simp_all add: sample_file_def sample_world_def sample_oracle_def)
  have dl: "\<forall>kvs. json_loads sample_world (strip_fences (py ''Sorry'')) \<noteq> Inr (PDict kvs)"
    by (simp add: sample_world_def sample_loads_def strip_fences_def strip_def
      py_def is_space_def startswith_def endswith_def)
  from parsed_object_returned_unvalidated [OF a, of 1 1, THEN conjunct1] al
  have 1: "extract_data_from_file sample_world (sample_file (py ''a.pdf'') [7]) 1 1
       = (PDict [(py ''filename'', PStr (py ''a.pdf''))], PNone)"
    by (simp add: sample_file_def)
  from parsed_object_returned_unvalidated [OF d, of 1 1, THEN conjunct2] dl
  have 2: "\<exists>pre post. extract_data_from_file sample_world (sample_file (py ''d.pdf'') [5]) 1 1
          = (PNone, PStr (pre @ py ''d.pdf'' @ post))"
    by (simp add: sample_file_def)
  from a al d dl 1 2 show ?thesis by blast
qed


text \<open>
  Claim C5, as stated, fails when the uploader is emptied: the count 0 differs from the
  recorded count 1, and the handler leaves the statements of the earlier batch and the
  flag as they were.
\<close>

theorem reset_on_count_change_counterexample:
  "length ([] :: uploaded_file list) \<noteq> last_upload_count stale_session
   \<and> all_statements (fst (handle_upload sample_world sample_repr [] stale_session))
       = [PDict [(py ''filename'', PStr (py ''old.pdf''))]]
   \<and> processing_complete (fst (handle_upload sample_world sample_repr [] stale_session))"
  by (simp add: handle_upload_def stale_session_def)

text \<open>
  Claim C5, amended. When a non-empty set of documents is uploaded and its size differs
  from the recorded count, the statements kept after the run are exactly the records
  extracted from these documents (nothing from an earlier batch), the recorded count is
  the new size and the flag is set.
\<close>

theorem reset_on_count_change:
  assumes "uploaded_files \<noteq> []"
    and "length uploaded_files \<noteq> last_upload_count s"
  shows "all_statements (fst (handle_upload w repr uploaded_files s))
           = map fst (filter succeeded
               (map (\<lambda>f. extract_data_from_file w f 0 0) uploaded_files))
       \<and> last_upload_count (fst (handle_upload w repr uploaded_files s)) = length uploaded_files
       \<and> processing_complete (fst (handle_upload w repr uploaded_files s))"
  using assms by (simp add: handle_upload_def process_files_eq Let_def)

theorem reset_on_count_change_witness:
  "[sample_file (py ''a.pdf'') [7], sample_file (py ''b.pdf'') [8]] \<noteq> []
   \<and> length [sample_file (py ''a.pdf'') [7], sample_file (py ''b.pdf'') [8]]
        \<noteq> last_upload_count stale_session
   \<and> all_statements (fst (handle_upload sample_world sample_repr
        [sample_file (py ''a.pdf'') [7], sample_file (py ''b.pdf'') [8]] stale_session))
        = [PDict [(py ''filename'', PStr (py ''a.pdf''))]]"
proof -
  have h: "[sample_file (py ''a.pdf'') [7], sample_file (py ''b.pdf'') [8]] \<noteq> []"
    "length [sample_file (py ''a.pdf'') [7], sample_file (py ''b.pdf'') [8]]
        \<noteq> last_upload_count stale_session"
    by (simp_all add: stale_session_def)
  from reset_on_count_change [OF h, of sample_world sample_repr, THEN conjunct1]
  have "all_statements (fst (handle_upload sample_world sample_repr
        [sample_file (py ''a.pdf'') [7], sample_file (py ''b.pdf'') [8]] stale_session))
        = [PDict [(py ''filename'', PStr (py ''a.pdf''))]]"
    by (simp add: sample_extract_1 sample_extract_2 succeeded_def)
  with h show ?thesis by blast
qed


section \<open>Properties of the amount normalizer and of float rounding\<close>


lemma bit_length_bounds:
  "0 < n \<Longrightarrow> 2 ^ (bit_length n - 1) \<le> n \<and> n < 2 ^ bit_length n"
proof (induction n rule: bit_length.induct)
  case (1 n)
  show ?case
  proof (cases "n div 2 = 0")
    case True
    with 1(2) have "n = 1" by (auto simp: div_eq_0_iff)
    then show ?thesis by (simp add: bit_length.simps)
  next
    case False
    then have pos: "0 < n div 2" by simp
    from 1(1) [OF _ pos] 1(2)
    have ih: "2 ^ (bit_length (n div 2) - 1) \<le> n div 2" "n div 2 < 2 ^ bit_length (n div 2)"
      by auto
    have bl: "bit_length n = Suc (bit_length (n div 2))"
      using 1(2) by (subst bit_length.simps) simp
    have blpos: "0 < bit_length (n div 2)"
      using pos by (subst bit_length.simps) simp
    have "2 ^ (bit_length n - 1) = 2 * 2 ^ (bit_length (n div 2) - 1)"
      using blpos by (cases "bit_length (n div 2)") (simp_all add: bl)
    also have "\<dots> \<le> 2 * (n div 2)" using ih(1) by simp
    also have "\<dots> \<le> n" by simp
    finally have a: "2 ^ (bit_length n - 1) \<le> n" .
    have "n < 2 * (n div 2) + 2" by presburger
    also have "\<dots> \<le> 2 * 2 ^ bit_length (n div 2)" using ih(2) by simp
    finally have b: "n < 2 ^ bit_length n" by (simp add: bl)
    from a b show ?thesis ..
  qed
qed

lemma bit_length_pos: "0 < n \<Longrightarrow> 0 < bit_length n"
  by (subst bit_length.simps) simp

lemma binade_bounds:
  assumes "0 < a"
  shows "2 powi binade a \<le> a \<and> a < 2 powi (binade a + 1)"
proof -
  obtain n d where q: "quotient_of a = (n, d)" by (cases "quotient_of a")
  then have d: "0 < d" and a: "a = of_int n / of_int d"
    by (auto simp: quotient_of_denom_pos quotient_of_div)
  from assms a d have n: "0 < n" by (simp add: zero_less_divide_iff)
  define N D where "N = nat n" and "D = nat d"
  have N: "0 < N" "of_int n = (of_nat N :: rat)" using n by (simp_all add: N_def)
  have D: "0 < D" "of_int d = (of_nat D :: rat)" using d by (simp_all add: D_def)
  define bn bd where "bn = bit_length N" and "bd = bit_length D"
  from bit_length_bounds [OF N(1)] bit_length_bounds [OF D(1)]
  have bN: "2 ^ (bn - 1) \<le> N" "N < 2 ^ bn" and bD: "2 ^ (bd - 1) \<le> D" "D < 2 ^ bd"
    by (simp_all add: bn_def bd_def)
  have bpos: "0 < bn" "0 < bd"
    using bit_length_pos N(1) D(1) by (simp_all add: bn_def bd_def)
  define k where "k = int bn - int bd"
  have ar: "a = of_nat N / of_nat D" using a N D by simp
  have Dr: "(0::rat) < of_nat D" using D by simp
  have rN: "(2::rat) ^ (bn - 1) \<le> of_nat N" "(of_nat N :: rat) < 2 ^ bn"
    using bN by (metis of_nat_le_iff of_nat_numeral of_nat_power,
                 metis of_nat_less_iff of_nat_numeral of_nat_power)
  have rD: "(2::rat) ^ (bd - 1) \<le> of_nat D" "(of_nat D :: rat) < 2 ^ bd"
    using bD by (metis of_nat_le_iff of_nat_numeral of_nat_power,
                 metis of_nat_less_iff of_nat_numeral of_nat_power)
  have p1: "(2::rat) powi (k + 1) = 2 ^ bn / 2 ^ (bd - 1)"
  proof -
    have "k + 1 = int bn - int (bd - 1)" using bpos by (simp add: k_def)
    then show ?thesis by (simp add: power_int_diff)
  qed
  have p0: "(2::rat) powi (k - 1) = 2 ^ (bn - 1) / 2 ^ bd"
  proof -
    have "k - 1 = int (bn - 1) - int bd" using bpos by (simp add: k_def)
    then show ?thesis by (simp add: power_int_diff)
  qed
  have up: "a < 2 powi (k + 1)"
  proof -
    have "a < 2 ^ bn / of_nat D" unfolding ar using rN(2) Dr by (simp add: divide_strict_right_mono)
    also have "\<dots> \<le> 2 ^ bn / 2 ^ (bd - 1)"
      using rD(1) by (simp add: frac_le)
    finally show ?thesis by (simp add: p1)
  qed
  have lo: "2 powi (k - 1) \<le> a"
  proof -
    have "(2::rat) ^ (bn - 1) / 2 ^ bd \<le> of_nat N / 2 ^ bd"
      using rN(1) by (simp add: divide_right_mono)
    also have "\<dots> \<le> of_nat N / of_nat D"
      using rD(2) Dr by (simp add: frac_le)
    finally show ?thesis by (simp add: p0 ar)
  qed
  have b: "binade a = (if 2 powi k \<le> a then k else k - 1)"
    by (simp add: binade_def q k_def bn_def bd_def N_def D_def)
  show ?thesis
  proof (cases "2 powi k \<le> a")
    case True
    with b up show ?thesis by simp
  next
    case False
    with b lo show ?thesis by simp
  qed
qed

lemma binade_unique:
  assumes "2 powi e \<le> a" "a < 2 powi (e + 1)"
  shows "binade a = e"
proof -
  have "(0::rat) < 2 powi e" by simp
  with assms(1) have pos: "0 < a" by linarith
  from binade_bounds [OF pos]
  have b: "2 powi binade a \<le> a" "a < 2 powi (binade a + 1)" by simp_all
  have mono: "i \<le> j \<Longrightarrow> (2::rat) powi i \<le> 2 powi j" for i j
    by (rule power_int_increasing) simp_all
  show ?thesis
  proof (rule ccontr)
    assume "binade a \<noteq> e"
    then consider "binade a + 1 \<le> e" | "e + 1 \<le> binade a" by linarith
    then show False
    proof cases
      case 1
      from mono [OF 1] b(2) assms(1) show False by linarith
    next
      case 2
      from mono [OF 2] b(1) assms(2) show False by linarith
    qed
  qed
qed

lemma round_half_even_int: "round_half_even (of_int m) = m"
  by (simp add: round_half_even_def)

lemma round_half_even_nonneg: "0 \<le> x \<Longrightarrow> 0 \<le> round_half_even x"
  by (auto simp: round_half_even_def Let_def)

lemma binary64_nonneg: "0 \<le> q \<Longrightarrow> float_ge0 (binary64 q)"
  by (auto simp: binary64_def Let_def round_half_even_nonneg)

lemma binary64_exact:
  assumes "2 powi e \<le> \<bar>q\<bar>" "\<bar>q\<bar> < 2 powi (e + 1)" "- 1022 \<le> e" "e < 1024"
    and "\<bar>q\<bar> = of_int m * 2 powi (e - 52)"
  shows "binary64 q = Finite q"
proof -
  have be: "binade \<bar>q\<bar> = e" using assms(1,2) by (rule binade_unique)
  have "(0::rat) < 2 powi e" by simp
  with assms(1) have "0 < \<bar>q\<bar>" by linarith
  then have q0: "q \<noteq> 0" by auto
  have u: "(2::rat) powi (e - 52) \<noteq> 0" by simp
  have dv: "\<bar>q\<bar> / 2 powi (e - 52) = of_int m" using assms(5) u by simp
  have "(2::rat) powi (e + 1) \<le> 2 powi 1024"
    using assms(4) by (intro power_int_increasing) simp_all
  with assms(2) have lt: "\<not> 2 powi 1024 \<le> \<bar>q\<bar>" by linarith
  have mx: "max e (- 1022) = e" using assms(3) by simp
  show ?thesis
    unfolding binary64_def Let_def be mx dv round_half_even_int assms(5) [symmetric]
    using q0 lt by auto
qed

lemma binary64_neg500: "binary64 (- 500) = Finite (- 500)"
  by (rule binary64_exact [where e = 8 and m = "500 * 2 ^ 44"]) (simp_all add: power_int_def power_one_over)



lemma re_sub_filter: "re_sub_non_numeric s = filter numeric_char s"
  by (induction s) auto

lemma py_float_None: "py_float s = None \<longleftrightarrow> decimal_literal s = None"
  by (simp add: py_float_def)

lemma numeric_char_ascii:
  "numeric_char 45" "numeric_char 46" "numeric_char 48" "numeric_char 49" "numeric_char 50"
  "numeric_char 51" "numeric_char 52" "numeric_char 53" "numeric_char 54" "numeric_char 55"
  "numeric_char 56" "numeric_char 57"
  "\<not> numeric_char 8377" "\<not> numeric_char 44" "\<not> numeric_char 97"
  "\<not> numeric_char 98" "\<not> numeric_char 99"
  by (simp_all add: numeric_char_def is_decimal_def decimal_value_def decimal_starts_def)

lemma decimal_value_ascii:
  "decimal_value 48 = Some 0" "decimal_value 49 = Some 1" "decimal_value 50 = Some 2"
  "decimal_value 51 = Some 3" "decimal_value 52 = Some 4" "decimal_value 53 = Some 5"
  "decimal_value 54 = Some 6" "decimal_value 55 = Some 7" "decimal_value 56 = Some 8"
  "decimal_value 57 = Some 9" "decimal_value 45 = None" "decimal_value 46 = None"
  by (simp_all add: decimal_value_def decimal_starts_def)

lemma parse_amount_rupees:
  "parse_amount str_id (8377 # py ''12,345.67'') = binary64 (1234567 / 100)"
  by (simp add: parse_amount_def str_id_def py_def numeric_char_ascii py_float_def
      decimal_literal_def unsigned_decimal_def is_decimal_def decimal_value_ascii)

lemma parse_amount_abc: "parse_amount str_id (py ''abc'') = Finite 0"
  by (simp add: parse_amount_def str_id_def py_def numeric_char_ascii py_float_def
      decimal_literal_def)

lemma parse_amount_neg500: "parse_amount str_id (py ''-500'') = Finite (- 500)"
  by (simp add: parse_amount_def str_id_def py_def numeric_char_ascii py_float_def
      decimal_literal_def unsigned_decimal_def is_decimal_def decimal_value_ascii
      binary64_neg500)

text \<open>
  Claim C1. For every input, \<open>parse_amount\<close> keeps of \<open>str(x)\<close> exactly the decimal digits,
  full stops and minus signs, reads what remains as a decimal number (rounded to a
  float) and returns \<open>0.0\<close> when that text is no decimal number; it always returns a
  float. The three examples of the specification hold: the float \<open>12345.67\<close> for the
  rupee amount, \<open>0.0\<close> for \<open>abc\<close>, \<open>-500.0\<close> for \<open>-500\<close>.
\<close>

theorem parse_amount_spec:
  "parse_amount S x =
     (case decimal_literal (filter (\<lambda>c. is_decimal c \<or> c = 46 \<or> c = 45) (S x)) of
        Some q \<Rightarrow> binary64 q
      | None \<Rightarrow> Finite 0)
   \<and> parse_amount str_id (8377 # py ''12,345.67'') = binary64 (1234567 / 100)
   \<and> parse_amount str_id (py ''abc'') = Finite 0
   \<and> parse_amount str_id (py ''-500'') = Finite (- 500)"
proof -
  have "filter numeric_char (S x) = filter (\<lambda>c. is_decimal c \<or> c = 46 \<or> c = 45) (S x)"
    by (simp add: numeric_char_def [abs_def])
  then have "parse_amount S x =
     (case decimal_literal (filter (\<lambda>c. is_decimal c \<or> c = 46 \<or> c = 45) (S x)) of
        Some q \<Rightarrow> binary64 q
      | None \<Rightarrow> Finite 0)"
    by (simp add: parse_amount_def re_sub_filter py_float_def split: option.split)
  then show ?thesis
    using parse_amount_rupees parse_amount_abc parse_amount_neg500 by blast
qed

lemma unsigned_decimal_nonneg: "unsigned_decimal s = Some q \<Longrightarrow> 0 \<le> q"
  by (auto simp: unsigned_decimal_def Let_def split: if_splits)

lemma decimal_literal_nonneg:
  "decimal_literal s = Some q \<Longrightarrow> 45 \<notin> set s \<Longrightarrow> 0 \<le> q"
  by (cases s) (auto simp: decimal_literal_def dest: unsigned_decimal_nonneg)

lemma parse_amount_nonneg:
  assumes "45 \<notin> set (S x)"
  shows "float_ge0 (parse_amount S x)"
proof (cases "decimal_literal (re_sub_non_numeric (S x))")
  case None
  then show ?thesis by (simp add: parse_amount_def py_float_def)
next
  case (Some q)
  have "45 \<notin> set (re_sub_non_numeric (S x))" using assms by (simp add: re_sub_filter)
  with Some have "0 \<le> q" by (rule decimal_literal_nonneg)
  with Some show ?thesis by (simp add: parse_amount_def py_float_def binary64_nonneg)
qed

text \<open>
  Claim C8, as stated, fails: for a debit whose amount field is \<open>-500\<close> the amount used
  by the charts is \<open>-500.0\<close>.
\<close>

theorem negative_amount_counterexample:
  "chart_amount sample_repr
     [(py ''type'', PStr (py ''Debit'')), (py ''amount'', PStr (py ''-500''))] = Finite (- 500)
   \<and> \<not> float_ge0 (Finite (- 500))"
  using parse_amount_neg500
  by (simp add: chart_amount_def parse_amount_def str_of_def str_id_def py_def)

text \<open>
  Claim C8, amended. The amount that \<open>parse_amount\<close> produces is non-negative whenever
  the text of the amount field contains no minus sign (the pattern keeps minus signs,
  so a sign written in the field does reach the numeric value).
\<close>

theorem amount_nonneg_without_minus:
  "(45 \<notin> set (S x) \<longrightarrow> float_ge0 (parse_amount S x))
   \<and> (45 \<notin> set (str_of repr (dict_get txn (py ''amount'') (PStr (py ''0''))))
        \<longrightarrow> float_ge0 (chart_amount repr txn))"
  by (simp add: parse_amount_nonneg chart_amount_def)

theorem amount_nonneg_without_minus_witness:
  "45 \<notin> set (str_id (py ''500''))
   \<and> float_ge0 (parse_amount str_id (py ''500''))
   \<and> 45 \<notin> set (str_of sample_repr (dict_get [(py ''amount'', PStr (py ''500''))]
              (py ''amount'') (PStr (py ''0''))))
   \<and> float_ge0 (chart_amount sample_repr [(py ''amount'', PStr (py ''500''))])"
proof -
  have a: "45 \<notin> set (str_id (py ''500''))" by (simp add: str_id_def py_def)
  have b: "45 \<notin> set (str_of sample_repr (dict_get [(py ''amount'', PStr (py ''500''))]
              (py ''amount'') (PStr (py ''0''))))"
    by (simp add: str_of_def py_def)
  note t = amount_nonneg_without_minus [of str_id "py ''500''" sample_repr
      "[(py ''amount'', PStr (py ''500''))]"]
  from t a b show ?thesis by blast
qed



lemma is_decimal_ascii:
  "is_decimal 48" "is_decimal 49" "is_decimal 50" "is_decimal 51" "is_decimal 52"
  "is_decimal 53" "is_decimal 54" "is_decimal 55" "is_decimal 56" "is_decimal 57"
  "\<not> is_decimal 45" "\<not> is_decimal 46"
  by (simp_all add: is_decimal_def decimal_value_ascii)

theorem parse_amount_spec_witness:
  "parse_amount str_id (py ''1.2.3'') = Finite 0
   \<and> parse_amount str_id (py ''Rs. -12,5a0.25 '') = Finite 0
   \<and> parse_amount str_id (py ''$ -1,250.75'') = binary64 (- (125075 / 100))"
proof -
  have f: "(\<lambda>c. is_decimal c \<or> c = 46 \<or> c = 45) = numeric_char"
    by (simp add: numeric_char_def [abs_def])
  have nc: "\<not> numeric_char 82" "\<not> numeric_char 115" "\<not> numeric_char 32"
    "\<not> numeric_char 36"
    by (simp_all add: numeric_char_def is_decimal_def decimal_value_def decimal_starts_def)
  from parse_amount_spec [of str_id "py ''1.2.3''", THEN conjunct1, unfolded f]
  have 1: "parse_amount str_id (py ''1.2.3'') = Finite 0"
    by (simp add: str_id_def py_def numeric_char_ascii decimal_literal_def
        unsigned_decimal_def is_decimal_ascii)
  from parse_amount_spec [of str_id "py ''Rs. -12,5a0.25 ''", THEN conjunct1, unfolded f]
  have 2: "parse_amount str_id (py ''Rs. -12,5a0.25 '') = Finite 0"
    by (simp add: str_id_def py_def numeric_char_ascii nc decimal_literal_def
        unsigned_decimal_def is_decimal_ascii)
  from parse_amount_spec [of str_id "py ''$ -1,250.75''", THEN conjunct1, unfolded f]
  have 3: "parse_amount str_id (py ''$ -1,250.75'') = binary64 (- (125075 / 100))"
    by (simp add: str_id_def py_def numeric_char_ascii nc decimal_literal_def
        unsigned_decimal_def is_decimal_ascii decimal_value_ascii)
  from 1 2 3 show ?thesis by blast
qed


section \<open>Properties of the utilization figures\<close>


lemma truediv_gt0: "float_gt0 b \<Longrightarrow> \<exists>q. truediv a b = Inr q"
  by (cases b; cases a) auto

lemma dict_get_default:
  "(\<forall>d. dict_get kvs k d = d) \<or> (\<exists>v. \<forall>d. dict_get kvs k d = v)"
  by (induction kvs) auto

lemma parse_amount_zero_text: "parse_amount (str_of repr) (PStr (py ''0'')) = Finite 0"
  by (simp add: parse_amount_def str_of_def py_def numeric_char_ascii py_float_def
      decimal_literal_def unsigned_decimal_def is_decimal_def decimal_value_ascii binary64_def)

lemma credit_limit_default:
  assumes "float_gt0 (parse_amount (str_of repr) (dict_get stmt k (PStr (py ''0''))))"
  shows "dict_get stmt k d = dict_get stmt k (PStr (py ''0''))"
proof -
  from dict_get_default [of stmt k] show ?thesis
  proof
    assume "\<forall>d. dict_get stmt k d = d"
    with assms have "float_gt0 (parse_amount (str_of repr) (PStr (py ''0'')))" by simp
    then show ?thesis by (simp add: parse_amount_zero_text)
  next
    assume "\<exists>v. \<forall>d. dict_get stmt k d = v"
    then show ?thesis by auto
  qed
qed

text \<open>
  Claim C7. With \<open>L\<close> the parsed credit limit and \<open>T\<close> the parsed total amount due of a
  statement: when \<open>L > 0\<close> the division \<open>T / L\<close> raises nothing and the comparison table,
  the card metric and the comparison chart all report \<open>T / L * 100\<close>; when \<open>L > 0\<close> fails
  the table and the metric report \<open>N/A\<close> and the chart reports 0, without dividing.
\<close>

theorem utilization_division_guarded:
  fixes repr stmt
  defines "L \<equiv> parse_amount (str_of repr) (dict_get stmt (py ''credit_limit'') (PStr (py ''0'')))"
    and "T \<equiv> parse_amount (str_of repr) (dict_get stmt (py ''total_amount_due'') (PStr (py ''0'')))"
  shows "(float_gt0 L \<longrightarrow>
            (\<exists>q. truediv T L = Inr q
               \<and> comparison_utilization repr stmt = Inr (Percent (float_mul q (Finite 100)))
               \<and> card_utilization_metric repr stmt = Inr (Percent (float_mul q (Finite 100)))
               \<and> chart_utilization repr stmt = Inr (PFloat (float_mul q (Finite 100)))))
       \<and> (\<not> float_gt0 L \<longrightarrow>
            comparison_utilization repr stmt = Inr (Text (py ''N/A''))
            \<and> card_utilization_metric repr stmt = Inr (Text (py ''N/A''))
            \<and> chart_utilization repr stmt = Inr (PInt 0))"
proof (intro conjI impI)
  assume g: "float_gt0 L"
  from truediv_gt0 [OF g, of T] obtain q where q: "truediv T L = Inr q" ..
  have d: "dict_get stmt (py ''credit_limit'') (PStr (py ''1''))
         = dict_get stmt (py ''credit_limit'') (PStr (py ''0''))"
    using g unfolding L_def by (rule credit_limit_default)
  have "comparison_utilization repr stmt = Inr (Percent (float_mul q (Finite 100)))"
    using g q unfolding comparison_utilization_def d L_def T_def by simp
  moreover have "card_utilization_metric repr stmt = Inr (Percent (float_mul q (Finite 100)))"
    using g q unfolding card_utilization_metric_def Let_def L_def T_def by simp
  moreover have "chart_utilization repr stmt = Inr (PFloat (float_mul q (Finite 100)))"
    using g q unfolding chart_utilization_def Let_def L_def T_def by simp
  ultimately show "\<exists>q. truediv T L = Inr q
               \<and> comparison_utilization repr stmt = Inr (Percent (float_mul q (Finite 100)))
               \<and> card_utilization_metric repr stmt = Inr (Percent (float_mul q (Finite 100)))
               \<and> chart_utilization repr stmt = Inr (PFloat (float_mul q (Finite 100)))"
    using q by blast
next
  assume g: "\<not> float_gt0 L"
  then show "comparison_utilization repr stmt = Inr (Text (py ''N/A''))"
    unfolding comparison_utilization_def L_def by simp
  from g show "card_utilization_metric repr stmt = Inr (Text (py ''N/A''))"
    unfolding card_utilization_metric_def Let_def L_def by simp
  from g show "chart_utilization repr stmt = Inr (PInt 0)"
    unfolding chart_utilization_def Let_def L_def by simp
qed

lemma binary64_8: "binary64 8 = Finite 8"
  by (rule binary64_exact [where e = 3 and m = "2 ^ 52"]) (simp_all add: power_int_def power_one_over)

lemma binary64_4: "binary64 4 = Finite 4"
  by (rule binary64_exact [where e = 2 and m = "2 ^ 52"]) (simp_all add: power_int_def power_one_over)

lemma parse_amount_8: "parse_amount (str_of repr) (PStr (py ''8'')) = Finite 8"
  by (simp add: parse_amount_def str_of_def py_def numeric_char_ascii py_float_def
      decimal_literal_def unsigned_decimal_def is_decimal_def decimal_value_ascii binary64_8)

lemma parse_amount_4: "parse_amount (str_of repr) (PStr (py ''4'')) = Finite 4"
  by (simp add: parse_amount_def str_of_def py_def numeric_char_ascii py_float_def
      decimal_literal_def unsigned_decimal_def is_decimal_def decimal_value_ascii binary64_4)

theorem utilization_division_guarded_witness:
  "float_gt0 (parse_amount (str_of sample_repr)
      (dict_get [(py ''total_amount_due'', PStr (py ''4'')), (py ''credit_limit'', PStr (py ''8''))]
         (py ''credit_limit'') (PStr (py ''0''))))
   \<and> (\<exists>q. truediv (Finite 4) (Finite 8) = Inr q
        \<and> comparison_utilization sample_repr
            [(py ''total_amount_due'', PStr (py ''4'')), (py ''credit_limit'', PStr (py ''8''))]
          = Inr (Percent (float_mul q (Finite 100))))
   \<and> \<not> float_gt0 (parse_amount (str_of sample_repr)
      (dict_get [(py ''total_amount_due'', PStr (py ''4''))]
         (py ''credit_limit'') (PStr (py ''0''))))
   \<and> comparison_utilization sample_repr [(py ''total_amount_due'', PStr (py ''4''))]
        = Inr (Text (py ''N/A''))
   \<and> chart_utilization sample_repr [(py ''total_amount_due'', PStr (py ''4''))] = Inr (PInt 0)"
proof -
  let ?A = "[(py ''total_amount_due'', PStr (py ''4'')), (py ''credit_limit'', PStr (py ''8''))]"
  let ?B = "[(py ''total_amount_due'', PStr (py ''4''))]"
  have ne: "py ''total_amount_due'' \<noteq> py ''credit_limit''" by (simp add: py_def)
  have LA: "parse_amount (str_of sample_repr) (dict_get ?A (py ''credit_limit'') (PStr (py ''0'')))
      = Finite 8"
    using ne by (simp add: parse_amount_8)
  have TA: "parse_amount (str_of sample_repr) (dict_get ?A (py ''total_amount_due'') (PStr (py ''0'')))
      = Finite 4"
    by (simp add: parse_amount_4)
  have LB: "parse_amount (str_of sample_repr) (dict_get ?B (py ''credit_limit'') (PStr (py ''0'')))
      = Finite 0"
    using ne by (simp add: parse_amount_zero_text)
  have gA: "float_gt0 (parse_amount (str_of sample_repr)
      (dict_get ?A (py ''credit_limit'') (PStr (py ''0''))))"
    unfolding LA by simp
  have gB: "\<not> float_gt0 (parse_amount (str_of sample_repr)
      (dict_get ?B (py ''credit_limit'') (PStr (py ''0''))))"
    unfolding LB by simp
  from utilization_division_guarded [of sample_repr ?A, THEN conjunct1, rule_format, OF gA]
  have 1: "\<exists>q. truediv (Finite 4) (Finite 8) = Inr q
        \<and> comparison_utilization sample_repr ?A = Inr (Percent (float_mul q (Finite 100)))"
    unfolding LA TA by blast
  from utilization_division_guarded [of sample_repr ?B, THEN conjunct2, rule_format, OF gB]
  have 2: "comparison_utilization sample_repr ?B = Inr (Text (py ''N/A''))"
    "chart_utilization sample_repr ?B = Inr (PInt 0)"
    by blast+
  from gA 1 gB 2 show ?thesis by blast
qed


section \<open>The export leaves the records as they are\<close>

lemma export_txns_frame:
  "export_txns card_id txns (h, rows) = (h', r) \<Longrightarrow>
     length h \<le> length h' \<and> take (length h) h' = h"
proof (induction txns arbitrary: h rows)
  case Nil
  then show ?case by simp
next
  case (Cons txn txns)
  show ?case
  proof (cases txn)
    case (ORef a)
    define h2 where
      "h2 = (h @ [h ! a])[length h := obj_set (py ''card'') (OStr card_id) ((h @ [h ! a]) ! length h)]"
    from Cons.prems ORef
    have "export_txns card_id txns (h2, rows @ [ORef (length h)]) = (h', r)"
      by (simp add: h2_def Let_def)
    from Cons.IH [OF this] have ih: "length h2 \<le> length h'" "take (length h2) h' = h2"
      by simp_all
    have l2: "length h2 = Suc (length h)" by (simp add: h2_def)
    have t2: "take (length h) h2 = h" by (simp add: h2_def)
    have "take (length h) h' = take (length h) (take (length h2) h')"
      by (simp add: l2 min_def)
    also have "\<dots> = h" by (simp only: ih(2) t2)
    finally show ?thesis using ih(1) l2 by simp
  qed (use Cons.prems in auto)
qed

lemma export_statements_frame:
  "export_statements repr stmts (h, rows) = (h', r) \<Longrightarrow>
     length h \<le> length h' \<and> take (length h) h' = h"
proof (induction stmts arbitrary: h rows)
  case Nil
  then show ?case by simp
next
  case (Cons stmt stmts)
  show ?case
  proof (cases stmt)
    case (ORef a)
    define card_id where
      "card_id = str_obj repr h (obj_get (h ! a) (py ''issuer'') (OStr (py ''Unknown'')))
                 @ py '' *''
                 @ str_obj repr h (obj_get (h ! a) (py ''card_last_4'') (OStr (py ''****'')))"
    show ?thesis
    proof (cases "iterate h (obj_get (h ! a) (py ''transactions'') (OList []))")
      case (Inl e)
      with Cons.prems ORef show ?thesis by (simp add: Let_def)
    next
      case (Inr txns)
      obtain h1 r1 where e: "export_txns card_id txns (h, rows) = (h1, r1)"
        by (cases "export_txns card_id txns (h, rows)")
      from export_txns_frame [OF e] have f1: "length h \<le> length h1" "take (length h) h1 = h"
        by simp_all
      show ?thesis
      proof (cases r1)
        case (Inl e1)
        with Cons.prems ORef Inr e have "h' = h1"
          by (simp add: Let_def card_id_def [symmetric])
        with f1 show ?thesis by simp
      next
        case (Inr rows1)
        with Cons.prems ORef \<open>iterate h _ = Inr txns\<close> e
        have "export_statements repr stmts (h1, rows1) = (h', r)"
          by (simp add: Let_def card_id_def [symmetric])
        from Cons.IH [OF this] have ih: "length h1 \<le> length h'" "take (length h1) h' = h1"
          by simp_all
        have "take (length h) h' = take (length h) (take (length h1) h')"
          using f1(1) by (simp add: min_def)
        also have "\<dots> = h" by (simp only: ih(2) f1(2))
        finally show ?thesis using ih(1) f1(1) by simp
      qed
    qed
  qed (use Cons.prems in auto)
qed




lemma export_txns_rows:
  "\<forall>t\<in>set txns. \<exists>a. t = ORef a \<and> a < length h \<Longrightarrow>
     export_txns card_id txns (h, rows) =
       (h @ map (card_row h card_id) txns,
        Inr (rows @ map ORef [length h ..< length h + length txns]))"
proof (induction txns arbitrary: h rows)
  case Nil
  then show ?case by simp
next
  case (Cons txn txns)
  from Cons.prems obtain a where a: "txn = ORef a" "a < length h" by auto
  define h2 where "h2 = h @ [obj_set (py ''card'') (OStr card_id) (h ! a)]"
  have step: "export_txns card_id (txn # txns) (h, rows)
      = export_txns card_id txns (h2, rows @ [ORef (length h)])"
    by (simp add: a h2_def Let_def)
  have wf: "\<forall>t\<in>set txns. \<exists>a. t = ORef a \<and> a < length h2"
    using Cons.prems by (auto simp: h2_def less_Suc_eq)
  have same: "map (card_row h2 card_id) txns = map (card_row h card_id) txns"
  proof (rule map_cong [OF refl])
    fix t assume "t \<in> set txns"
    with Cons.prems obtain b where "t = ORef b" "b < length h" by auto
    then show "card_row h2 card_id t = card_row h card_id t"
      by (simp add: card_row_def h2_def nth_append)
  qed
  have "[length h ..< length h + length (txn # txns)]
      = length h # [Suc (length h) ..< length h + length (txn # txns)]"
    by (rule upt_conv_Cons) simp
  then have upt: "[length h ..< length h + length (txn # txns)]
      = length h # [length h2 ..< length h2 + length txns]"
    by (simp add: h2_def)
  show ?case
    unfolding step Cons.IH [OF wf] same upt
    by (simp add: h2_def card_row_def a)
qed

text \<open>
  Claim C9. The transactions export changes no dict that existed before it ran: every
  address of the store holds afterwards the items it held before, whether the export
  ends normally or by an exception, so every statement and every transaction is
  unchanged. Each exported row is a new dict, allocated after the existing ones, that
  holds the items of its transaction and the \<open>card\<close> column. (The totals, the comparison
  table and the JSON export only read the records.)
\<close>

theorem export_leaves_records_unchanged:
  "(export_statements repr stmts (h, rows) = (h', r) \<longrightarrow>
      length h \<le> length h' \<and> (\<forall>a<length h. h' ! a = h ! a))
   \<and> ((\<forall>t\<in>set txns. \<exists>a. t = ORef a \<and> a < length h) \<longrightarrow>
        export_txns card_id txns (h, rows) =
          (h @ map (card_row h card_id) txns,
           Inr (rows @ map ORef [length h ..< length h + length txns])))"
proof (intro conjI impI)
  assume e: "export_statements repr stmts (h, rows) = (h', r)"
  from export_statements_frame [OF e]
  have f: "length h \<le> length h'" "take (length h) h' = h" by simp_all
  show "length h \<le> length h'" by (rule f(1))
  show "\<forall>a<length h. h' ! a = h ! a"
  proof (intro allI impI)
    fix a assume "a < length h"
    then have "take (length h) h' ! a = h' ! a" by simp
    with f(2) show "h' ! a = h ! a" by simp
  qed
next
  assume "\<forall>t\<in>set txns. \<exists>a. t = ORef a \<and> a < length h"
  then show "export_txns card_id txns (h, rows) =
          (h @ map (card_row h card_id) txns,
           Inr (rows @ map ORef [length h ..< length h + length txns]))"
    by (rule export_txns_rows)
qed

lemma sample_export:
  "export_statements sample_repr_obj [ORef 0] (sample_store, []) =
     (sample_store @ [[(py ''amount'', OStr (py ''100'')), (py ''type'', OStr (py ''Debit'')),
                       (py ''card'', OStr (py ''HDFC *1234''))]],
      Inr [ORef 2])"
  by (simp add: sample_store_def Let_def str_obj_def py_def)

theorem export_leaves_records_unchanged_witness:
  "export_statements sample_repr_obj [ORef 0] (sample_store, []) =
     (sample_store @ [[(py ''amount'', OStr (py ''100'')), (py ''type'', OStr (py ''Debit'')),
                       (py ''card'', OStr (py ''HDFC *1234''))]],
      Inr [ORef 2])
   \<and> (sample_store @ [[(py ''amount'', OStr (py ''100'')), (py ''type'', OStr (py ''Debit'')),
                       (py ''card'', OStr (py ''HDFC *1234''))]]) ! 0 = sample_store ! 0
   \<and> (sample_store @ [[(py ''amount'', OStr (py ''100'')), (py ''type'', OStr (py ''Debit'')),
                       (py ''card'', OStr (py ''HDFC *1234''))]]) ! 1 = sample_store ! 1
   \<and> export_txns (py ''HDFC *1234'') [ORef 1] (sample_store, []) =
        (sample_store @ [[(py ''amount'', OStr (py ''100'')), (py ''type'', OStr (py ''Debit'')),
                       (py ''card'', OStr (py ''HDFC *1234''))]],
         Inr [ORef 2])"
proof -
  note t = export_leaves_records_unchanged [of sample_repr_obj "[ORef 0]" sample_store "[]"
      "sample_store @ [[(py ''amount'', OStr (py ''100'')), (py ''type'', OStr (py ''Debit'')),
                       (py ''card'', OStr (py ''HDFC *1234''))]]" "Inr [ORef 2]"
      "[ORef 1]" "py ''HDFC *1234''"]
  have l: "0 < length sample_store" "1 < length sample_store"
    by (simp_all add: sample_store_def)
  have wf: "\<forall>t\<in>set [ORef 1]. \<exists>a. t = ORef a \<and> a < length sample_store"
    by (simp add: sample_store_def)
  from t [THEN conjunct1, rule_format, OF sample_export]
  have f: "\<forall>a<length sample_store.
         (sample_store @ [[(py ''amount'', OStr (py ''100'')), (py ''type'', OStr (py ''Debit'')),
                       (py ''card'', OStr (py ''HDFC *1234''))]]) ! a = sample_store ! a"
    by blast
  from f l have 1: "(sample_store @ [[(py ''amount'', OStr (py ''100'')),
        (py ''type'', OStr (py ''Debit'')), (py ''card'', OStr (py ''HDFC *1234''))]]) ! 0
      = sample_store ! 0"
    "(sample_store @ [[(py ''amount'', OStr (py ''100'')),
        (py ''type'', OStr (py ''Debit'')), (py ''card'', OStr (py ''HDFC *1234''))]]) ! 1
      = sample_store ! 1"
    by blast+
  from t [THEN conjunct2, rule_format, OF wf [rule_format]]
  have 2: "export_txns (py ''HDFC *1234'') [ORef 1] (sample_store, []) =
        (sample_store @ [[(py ''amount'', OStr (py ''100'')), (py ''type'', OStr (py ''Debit'')),
                       (py ''card'', OStr (py ''HDFC *1234''))]],
         Inr [ORef 2])"
    by (simp add: card_row_def sample_store_def py_def)
  from sample_export 1 2 show ?thesis by blast
qed

section \<open>The round trip through the text of a float\<close>


lemma binary64_1e16: "binary64 10000000000000000 = Finite 10000000000000000"
  by (rule binary64_exact [where e = 53 and m = "5000000000000000"])
     (simp_all add: power_int_def)

lemma binary64_116: "binary64 116 = Finite 116"
  by (rule binary64_exact [where e = 6 and m = "116 * 2 ^ 46"])
     (simp_all add: power_int_def power_one_over)

lemma parse_amount_1e16:
  "parse_amount str_id (py ''10000000000000000'') = Finite 10000000000000000"
  by (simp add: parse_amount_def str_id_def py_def numeric_char_ascii py_float_def
      decimal_literal_def unsigned_decimal_def is_decimal_ascii decimal_value_ascii
      binary64_1e16)

lemma decade_1e16: "decade 10000000000000000 = 17"
  by (simp add: decade_def dec_length.simps power_int_def)

lemma candidate_1e16: "candidate 10000000000000000 17 1 = Some (1, 16)"
  by (simp add: candidate_def Let_def reads_back_def power_int_def binary64_1e16)

lemma shortest_1e16: "shortest 10000000000000000 = (1, 16)"
proof -
  have "[1..<17] = 1 # [2..<17]" by (simp add: upt_conv_Cons)
  with candidate_1e16 show ?thesis
    by (simp add: shortest_def decade_1e16)
qed

lemma float_str_1e16: "float_str (Finite 10000000000000000) = py ''1e+16''"
  by (simp add: float_str_def repr_positive_def shortest_1e16 dec_digits.simps
      dec_length.simps digit_chars_def exp_text_def py_def)

lemma parse_amount_text_1e16:
  "parse_amount float_str (Finite 10000000000000000) = Finite 116"
proof -
  have nc: "\<not> numeric_char 101" "\<not> numeric_char 43"
    by (simp_all add: numeric_char_def is_decimal_def decimal_value_def decimal_starts_def)
  show ?thesis
    by (simp add: parse_amount_def float_str_1e16 py_def numeric_char_ascii nc py_float_def
      decimal_literal_def unsigned_decimal_def is_decimal_ascii decimal_value_ascii
      binary64_116)
qed

text \<open>
  Claim C6, as stated, fails: the amount \<open>10000000000000000\<close> is parsed as the float
  \<open>1e16\<close>, whose text is \<open>1e+16\<close>; the filter deletes \<open>e\<close> and \<open>+\<close>, and parsing that text
  gives \<open>116.0\<close>.
\<close>

theorem round_trip_counterexample:
  "parse_amount str_id (py ''10000000000000000'') = Finite 10000000000000000
   \<and> float_str (Finite 10000000000000000) = py ''1e+16''
   \<and> parse_amount float_str (parse_amount str_id (py ''10000000000000000'')) = Finite 116"
  by (simp add: parse_amount_1e16 float_str_1e16 parse_amount_text_1e16)



lemma round_half_even_near:
  assumes "\<bar>y - of_int M\<bar> < 1 / 2"
  shows "round_half_even y = M"
proof -
  have b: "y - of_int M < 1 / 2" "of_int M - y < 1 / 2" using assms by linarith+
  have "\<lfloor>y\<rfloor> = M \<or> \<lfloor>y\<rfloor> = M - 1"
  proof (cases "of_int M \<le> y")
    case True
    then have "\<lfloor>y\<rfloor> = M" using b by (intro floor_unique) linarith+
    then show ?thesis ..
  next
    case False
    then have "\<lfloor>y\<rfloor> = M - 1" using b by (intro floor_unique) (simp, linarith)
    then show ?thesis ..
  qed
  then show ?thesis
  proof
    assume f: "\<lfloor>y\<rfloor> = M"
    have "y - of_int M < 1 / 2" by (rule b)
    then show ?thesis by (simp add: round_half_even_def Let_def f)
  next
    assume f: "\<lfloor>y\<rfloor> = M - 1"
    have "1 / 2 < y - of_int (M - 1)" using b by simp
    then have "\<not> y - of_int (M - 1) < 1 / 2" by linarith
    with \<open>1 / 2 < y - of_int (M - 1)\<close> show ?thesis
      unfolding round_half_even_def Let_def f by simp
  qed
qed

lemma round_half_even_dist: "\<bar>of_int (round_half_even y) - y\<bar> \<le> 1 / 2"
proof -
  have f: "of_int \<lfloor>y\<rfloor> \<le> y" "y < of_int \<lfloor>y\<rfloor> + 1" by linarith+
  show ?thesis
  proof (cases "y - of_int \<lfloor>y\<rfloor> < 1 / 2")
    case True
    then have "round_half_even y = \<lfloor>y\<rfloor>" by (simp add: round_half_even_def Let_def)
    with True f show ?thesis by simp
  next
    case False
    show ?thesis
    proof (cases "1 / 2 < y - of_int \<lfloor>y\<rfloor>")
      case True
      with False have "round_half_even y = \<lfloor>y\<rfloor> + 1" by (simp add: round_half_even_def Let_def)
      with True f show ?thesis by simp
    next
      case F2: False
      with False have h: "y - of_int \<lfloor>y\<rfloor> = 1 / 2" by linarith
      have "round_half_even y = \<lfloor>y\<rfloor> \<or> round_half_even y = \<lfloor>y\<rfloor> + 1"
        by (auto simp: round_half_even_def Let_def)
      then show ?thesis using h by (auto simp: abs_le_iff) (linarith+)?
    qed
  qed
qed

lemma round_half_even_floor:
  "round_half_even y = \<lfloor>y\<rfloor> \<or> round_half_even y = \<lfloor>y\<rfloor> + 1"
  by (auto simp: round_half_even_def Let_def)



lemma powi_mono: "i \<le> j \<Longrightarrow> (2::rat) powi i \<le> 2 powi j"
  by (rule power_int_increasing) simp_all

lemma powi_split: "(2::rat) powi (i + j) = 2 powi i * 2 powi j"
  by (rule power_int_add) simp

lemma powi_52: "(2::rat) powi e = 4503599627370496 * 2 powi (e - 52)"
  using powi_split [of 52 "e - 52"] by simp

lemma powi_53: "(2::rat) powi (e + 1) = 9007199254740992 * 2 powi (e - 52)"
  using powi_split [of 53 "e - 52"] by (simp add: add.commute)

lemma powi_51: "(2::rat) powi (e - 1) = 2251799813685248 * 2 powi (e - 52)"
  using powi_split [of 51 "e - 52"] by simp

lemma powi_half: "(2::rat) powi (e - 1 - 52) = 2 powi (e - 52) / 2"
  using powi_split [of "- 1" "e - 52"] by (simp add: algebra_simps)

lemma binary64_round:
  assumes b: "2 powi e \<le> c" "c < 2 powi (e + 1)"
    and e: "- 1022 \<le> e"
    and m: "\<bar>c - of_int M * 2 powi (e - 52)\<bar> * 2 < 2 powi (e - 52)"
    and r: "(of_int M :: rat) * 2 powi (e - 52) < 2 powi 1024"
  shows "binary64 c = Finite (of_int M * 2 powi (e - 52))"
proof -
  define u :: rat where "u = 2 powi (e - 52)"
  have u: "0 < u" by (simp add: u_def)
  have "(0::rat) < 2 powi e" by simp
  with b(1) have c0: "0 < c" by linarith
  have be: "binade \<bar>c\<bar> = e" using b c0 by (intro binade_unique) simp_all
  have "c / u - of_int M = (c - of_int M * u) / u"
    using u by (simp add: field_simps)
  then have "\<bar>c / u - of_int M\<bar> = \<bar>c - of_int M * u\<bar> / \<bar>u\<bar>"
    by (simp only: abs_divide)
  also have "\<dots> = \<bar>c - of_int M * u\<bar> / u" using u by simp
  also have "\<dots> < 1 / 2" using m u by (simp add: u_def [symmetric] field_simps)
  finally have "round_half_even (c / u) = M" by (rule round_half_even_near)
  then have rh: "round_half_even (\<bar>c\<bar> / 2 powi (e - 52)) = M"
    using c0 by (simp add: u_def)
  have mx: "max e (- 1022) = e" using e by simp
  show ?thesis
    unfolding binary64_def Let_def be mx rh
    using c0 r by auto
qed




lemma binary64_near:
  assumes x: "x = of_int M * 2 powi (e - 52)"
    and M: "4503599627370496 \<le> M" "M < 9007199254740992"
    and e: "- 1022 \<le> e" "e \<le> 1023"
    and c: "\<bar>c - x\<bar> * 20000000000000000 \<le> x"
  shows "binary64 c = Finite x"
proof -
  define u :: rat where "u = 2 powi (e - 52)"
  define W :: rat where "W = 2 powi e"
  define t :: rat where "t = x / 20000000000000000"
  define d :: rat where "d = \<bar>c - x\<bar>"
  have cd: "c \<le> x + d" "x - d \<le> c" unfolding d_def by linarith+
  have u: "0 < u" by (simp add: u_def)
  have WK: "W = 4503599627370496 * u" unfolding u_def W_def by (rule powi_52)
  have p53: "2 powi (e + 1) = 2 * W" unfolding W_def by (simp add: power_int_add)
  have p51: "2 powi (e - 1) = W / 2" unfolding W_def by (simp add: power_int_diff)
  have ph: "2 powi (e - 1 - 52) = u / 2" unfolding u_def by (rule powi_half)
  have Wu: "u \<le> W" unfolding WK using u by simp
  have xu: "x = of_int M * u" by (simp add: x u_def)
  have M1: "(4503599627370496::rat) \<le> of_int M"
    using M(1) of_int_le_iff [of 4503599627370496 M, where ?'a = rat] by simp
  have "M \<le> 9007199254740991" using M(2) by simp
  then have M2: "(of_int M :: rat) \<le> 9007199254740991"
    using of_int_le_iff [of M 9007199254740991, where ?'a = rat] by simp
  have "x \<le> 9007199254740991 * u"
    unfolding xu using M2 u by (rule mult_right_mono [OF _ less_imp_le])
  also have "\<dots> = 2 * W - u" unfolding WK by simp
  finally have h1: "x \<le> 2 * W - u" .
  have h2: "W \<le> x"
    unfolding xu WK using M1 u by (rule mult_right_mono [OF _ less_imp_le])
  have ct: "d \<le> t"
    unfolding t_def d_def using c by (simp add: pos_le_divide_eq)
  have "t \<le> 9007199254740991 * u / 20000000000000000"
    unfolding t_def using \<open>x \<le> 9007199254740991 * u\<close> by (simp add: divide_right_mono)
  also have "\<dots> = 9007199254740991 / 20000000000000000 * u" by simp
  also have "\<dots> < 1 / 2 * u" using u by (intro mult_strict_right_mono) simp_all
  finally have tu: "t < 1 / 2 * u" .
  have "x < 2 powi (e + 1)" unfolding p53 using h1 u by linarith
  also have "\<dots> \<le> 2 powi 1024" using e(2) by (intro powi_mono) simp
  finally have big: "x < 2 powi 1024" .
  show ?thesis
  proof (cases "W \<le> c")
    case True
    have "binary64 c = Finite (of_int M * 2 powi (e - 52))"
    proof (rule binary64_round)
      show "2 powi e \<le> c" using True by (simp add: W_def)
      show "c < 2 powi (e + 1)" unfolding p53 using cd ct tu h1 by linarith
      show "- 1022 \<le> e" by (rule e)
      have "d * 2 < u" using ct tu by linarith
      then show "\<bar>c - of_int M * 2 powi (e - 52)\<bar> * 2 < 2 powi (e - 52)"
        unfolding d_def x u_def .
      show "(of_int M :: rat) * 2 powi (e - 52) < 2 powi 1024" unfolding x [symmetric] by (rule big)
    qed
    then show ?thesis unfolding x .
  next
    case False
    then have lt: "c < W" by simp
    have "(of_int M - 4503599627370496) * u = x - W"
      unfolding xu WK by (simp add: algebra_simps)
    also have "\<dots> < 1 / 2 * u" using lt cd ct tu by linarith
    finally have "(of_int M - 4503599627370496 :: rat) < 1 / 2"
      using u by (simp only: mult_less_cancel_right_pos)
    then have "(of_int M :: rat) < of_int 4503599627370497" by simp
    then have "M < 4503599627370497" by (simp only: of_int_less_iff)
    with M(1) have Meq: "M = 4503599627370496" by simp
    have xW: "x = W" unfolding xu Meq WK by simp
    have "t = 4503599627370496 / 20000000000000000 * u"
      unfolding t_def xW WK by simp
    also have "\<dots> < 1 / 4 * u" using u by (intro mult_strict_right_mono) simp_all
    finally have t4: "t < 1 / 4 * u" .
    have c0: "0 < c" using cd ct t4 xW Wu u by linarith
    show ?thesis
    proof (cases "e = - 1022")
      case True
      have be: "binade \<bar>c\<bar> = e - 1"
      proof (rule binade_unique)
        show "2 powi (e - 1) \<le> \<bar>c\<bar>" unfolding p51 using cd ct t4 xW Wu u by linarith
        have "\<bar>c\<bar> < 2 powi e" unfolding W_def [symmetric] using lt c0 by linarith
        then show "\<bar>c\<bar> < 2 powi (e - 1 + 1)" by simp
      qed
      have "c / u - of_int M = (c - x) / u"
        unfolding xu using u by (simp add: field_simps)
      then have "\<bar>c / u - of_int M\<bar> = \<bar>c - x\<bar> / \<bar>u\<bar>"
        by (simp only: abs_divide)
      also have "\<dots> = \<bar>c - x\<bar> / u" using u by simp
      also have "\<dots> < 1 / 2"
      proof -
        have "d < 1 / 2 * u" using ct tu by linarith
        then show ?thesis unfolding d_def using u by (simp add: pos_divide_less_eq)
      qed
      finally have "round_half_even (c / u) = M" by (rule round_half_even_near)
      then have rh: "round_half_even (\<bar>c\<bar> / 2 powi (e - 52)) = M"
        using c0 by (simp add: u_def)
      have mx: "max (e - 1) (- 1022) = e" using True by simp
      show ?thesis
        unfolding binary64_def Let_def be mx rh x [symmetric]
        using c0 big by auto
    next
      case False
      have xh: "x = 9007199254740992 * (u / 2)" unfolding xW WK by simp
      have "binary64 c = Finite (of_int 9007199254740992 * 2 powi (e - 1 - 52))"
      proof (rule binary64_round)
        show "2 powi (e - 1) \<le> c" unfolding p51 using cd ct t4 xW Wu u by linarith
        have "c < 2 powi e" unfolding W_def [symmetric] by (rule lt)
        then show "c < 2 powi (e - 1 + 1)" by simp
        show "- 1022 \<le> e - 1" using e(1) False by simp
        have "d * 2 < u / 2" using ct t4 by linarith
        then have "\<bar>c - x\<bar> * 2 < u / 2" unfolding d_def .
        then show "\<bar>c - of_int 9007199254740992 * 2 powi (e - 1 - 52)\<bar> * 2 < 2 powi (e - 1 - 52)"
          unfolding ph xh by simp
        show "(of_int 9007199254740992 :: rat) * 2 powi (e - 1 - 52) < 2 powi 1024"
          using big unfolding ph xh by simp
      qed
      then show ?thesis unfolding ph xh by simp
    qed
  qed
qed


end
